theory Spec2Isabelle
  imports Main
begin

section \<open>Values and objects of the configuration document\<close>

text \<open>
  The configuration document (\<open>ClawdbotConfig\<close>) is a JavaScript object read from a JSON
  file and patched with object spreads. A value is one of the JSON values or
  \<open>undefined\<close>, which the patches write explicitly (\<open>accounts: undefined\<close>,
  \<open>botToken: undefined\<close>). An object is a map from its own property names to values;
  a property holding \<open>undefined\<close> is an own property all the same (\<open>Object.keys\<close>
  counts it), so it is kept apart from a missing one.
\<close>

datatype jv =
    JUndef
  | JNull
  | JBool bool
  | JNum int
  | JStr string
  | JArr "jv list"
  | JObj "string \<Rightarrow> jv option"

type_synonym obj = "string \<rightharpoonup> jv"

text \<open>\<open>o.k\<close> on an object: the own property, or \<open>undefined\<close>.\<close>

definition ownProp :: "obj \<Rightarrow> string \<Rightarrow> jv" where
  "ownProp m k = (case m k of None \<Rightarrow> JUndef | Some v \<Rightarrow> v)"

text \<open>
  \<open>v?.k\<close> and \<open>v?.[k]\<close>. The positions the commands read (a provider section, its
  \<open>accounts\<close> map, an account entry) hold an object or \<open>undefined\<close> in a
  \<open>ClawdbotConfig\<close>; the property names read there are not those of a prototype.
\<close>

fun get :: "jv \<Rightarrow> string \<Rightarrow> jv" where
  "get (JObj m) k = ownProp m k"
| "get _ k = JUndef"

text \<open>
  The properties that \<open>{...v}\<close> copies: the own properties of an object, none for
  \<open>undefined\<close>, \<open>null\<close>, a boolean or a number. (Strings and arrays, which would
  spread their indices, are excluded at these positions by the type of the document.)
\<close>

fun spread :: "jv \<Rightarrow> obj" where
  "spread (JObj m) = m"
| "spread _ = Map.empty"

text \<open>Truthiness, as \<open>if (v)\<close>, \<open>!v\<close>, \<open>v ? a : b\<close> and \<open>v && w\<close> test it.\<close>

fun truthy :: "jv \<Rightarrow> bool" where
  "truthy JUndef = False"
| "truthy JNull = False"
| "truthy (JBool b) = b"
| "truthy (JNum n) = (n \<noteq> 0)"
| "truthy (JStr s) = (s \<noteq> [])"
| "truthy (JArr xs) = True"
| "truthy (JObj m) = True"

text \<open>An optional string argument (\<open>token?: string\<close>) is truthy when present and not empty.\<close>

fun given :: "string option \<Rightarrow> bool" where
  "given None = False"
| "given (Some s) = (s \<noteq> [])"

text \<open>\<open>...(v ? { k: v } : {})\<close> for an optional string \<open>v\<close>.\<close>

fun optField :: "string \<Rightarrow> string option \<Rightarrow> obj" where
  "optField k None = Map.empty"
| "optField k (Some s) = (if s \<noteq> [] then [k \<mapsto> JStr s] else Map.empty)"

section \<open>Strings\<close>

text \<open>
  A string is the list of the bytes of its UTF-8 encoding, the form in which the command
  line and the configuration file hold it; a code point beyond Basic Latin is two to four
  bytes. Property names and values are only compared, so their encoding does not matter;
  \<open>trim\<close> and \<open>toLowerCase\<close> look at the contents.

  \<open>String.prototype.trim\<close> strips from both ends the code points that ECMAScript names
  WhiteSpace or LineTerminator: U+0009..U+000D, U+0020, U+00A0, U+1680, U+2000..U+200A,
  U+2028, U+2029, U+202F, U+205F, U+3000 and U+FEFF. \<open>whiteSpaces\<close> lists their
  encodings.
\<close>

definition whiteSpaces :: "string list" where
  "whiteSpaces =
     [[CHR 0x09], [CHR 0x0A], [CHR 0x0B], [CHR 0x0C], [CHR 0x0D], [CHR 0x20],
      [CHR 0xC2, CHR 0xA0],
      [CHR 0xE1, CHR 0x9A, CHR 0x80],
      [CHR 0xE2, CHR 0x80, CHR 0x80], [CHR 0xE2, CHR 0x80, CHR 0x81],
      [CHR 0xE2, CHR 0x80, CHR 0x82], [CHR 0xE2, CHR 0x80, CHR 0x83],
      [CHR 0xE2, CHR 0x80, CHR 0x84], [CHR 0xE2, CHR 0x80, CHR 0x85],
      [CHR 0xE2, CHR 0x80, CHR 0x86], [CHR 0xE2, CHR 0x80, CHR 0x87],
      [CHR 0xE2, CHR 0x80, CHR 0x88], [CHR 0xE2, CHR 0x80, CHR 0x89],
      [CHR 0xE2, CHR 0x80, CHR 0x8A],
      [CHR 0xE2, CHR 0x80, CHR 0xA8], [CHR 0xE2, CHR 0x80, CHR 0xA9],
      [CHR 0xE2, CHR 0x80, CHR 0xAF], [CHR 0xE2, CHR 0x81, CHR 0x9F],
      [CHR 0xE3, CHR 0x80, CHR 0x80],
      [CHR 0xEF, CHR 0xBB, CHR 0xBF]]"

text \<open>\<open>s\<close> begins with the non-empty \<open>w\<close>.\<close>

definition startsWith :: "string \<Rightarrow> string \<Rightarrow> bool" where
  "startsWith s w = (w \<noteq> [] \<and> take (length w) s = w)"

text \<open>Strip from the front of \<open>s\<close> every leading occurrence of one of the tokens \<open>ws\<close>.\<close>

function stripTokens :: "string list \<Rightarrow> string \<Rightarrow> string" where
  "stripTokens ws s =
     (case find (startsWith s) ws of
        None \<Rightarrow> s
      | Some w \<Rightarrow> stripTokens ws (drop (length w) s))"
  by pat_completeness auto
termination
proof (relation "measure (\<lambda>(ws, s). length s)")
  show "wf (measure (\<lambda>(ws, s). length s))" by simp
next
  fix ws :: "string list" and s w :: string
  assume "find (startsWith s) ws = Some w"
  then have "startsWith s w" by (auto simp: find_Some_iff)
  then have w: "w \<noteq> []" and t: "take (length w) s = w"
    unfolding startsWith_def by auto
  from t have "length (take (length w) s) = length w" by simp
  then have "length w \<le> length s" by simp
  with w show "((ws, drop (length w) s), (ws, s)) \<in> measure (\<lambda>(ws, s). length s)"
    by (cases w) auto
qed

declare stripTokens.simps [simp del]

text \<open>White space goes from the front, then, on the reversed string, from the back.\<close>

definition trim :: "string \<Rightarrow> string" where
  "trim s = rev (stripTokens (map rev whiteSpaces) (rev (stripTokens whiteSpaces s)))"

text \<open>
  \<open>String.prototype.toLowerCase\<close>, as far as a comparison with a word of Basic Latin
  letters can tell: \<open>A\<close>..\<open>Z\<close> become \<open>a\<close>..\<open>z\<close>, the Kelvin sign U+212A (bytes
  E2 84 AA) becomes \<open>k\<close>, and U+0130 (bytes C4 B0) becomes \<open>i\<close> followed by U+0307
  (bytes CC 87). These are the code points whose lower-case form holds a Basic Latin
  letter; every other code point is left in place here, where Unicode gives it a
  lower-case form without Basic Latin letters.
\<close>

definition lowerChar :: "char \<Rightarrow> char" where
  "lowerChar c =
     (let n = (of_char c :: nat)
      in if 65 \<le> n \<and> n \<le> 90 then char_of (n + 32) else c)"

fun toLowerCase :: "string \<Rightarrow> string" where
  "toLowerCase [] = []"
| "toLowerCase (c # cs) =
     (if take 3 (c # cs) = [CHR 0xE2, CHR 0x84, CHR 0xAA] then
        CHR ''k'' # toLowerCase (drop 2 cs)
      else if take 2 (c # cs) = [CHR 0xC4, CHR 0xB0] then
        CHR ''i'' # CHR 0xCC # CHR 0x87 # toLowerCase (drop 1 cs)
      else lowerChar c # toLowerCase cs)"

section \<open>Providers and account ids\<close>

datatype ChatProvider = Whatsapp | Telegram | Discord | Slack | Signal | Imessage

text \<open>The string of each member of the union type \<open>ChatProvider\<close>, also its key in the document.\<close>

fun providerKey :: "ChatProvider \<Rightarrow> string" where
  "providerKey Whatsapp = ''whatsapp''"
| "providerKey Telegram = ''telegram''"
| "providerKey Discord = ''discord''"
| "providerKey Slack = ''slack''"
| "providerKey Signal = ''signal''"
| "providerKey Imessage = ''imessage''"

definition CHAT_PROVIDERS :: "ChatProvider list" where
  "CHAT_PROVIDERS = [Whatsapp, Telegram, Discord, Slack, Signal, Imessage]"

text \<open>
  \<open>normalizeChatProvider(raw?: string): ChatProvider | null\<close>; \<open>None\<close> as argument is
  the absent \<open>raw\<close>, \<open>None\<close> as result is \<open>null\<close>.
\<close>

definition normalizeChatProvider :: "string option \<Rightarrow> ChatProvider option" where
  "normalizeChatProvider raw =
     (let trimmed = toLowerCase (trim (case raw of None \<Rightarrow> [] | Some s \<Rightarrow> s))
      in if trimmed = [] then None
         else let normalized = (if trimmed = ''imsg'' then ''imessage'' else trimmed)
              in find (\<lambda>p. providerKey p = normalized) CHAT_PROVIDERS)"

text \<open>
  Modelled from the spec: \<open>DEFAULT_ACCOUNT_ID\<close> and \<open>normalizeAccountId\<close> are imported
  from \<open>routing/session-key.js\<close>, which is not among the sources. The spec has the
  normalizer trim its argument, map the empty or absent one to the reserved default
  sentinel and pass every other value through unchanged.
\<close>

definition DEFAULT_ACCOUNT_ID :: string where
  "DEFAULT_ACCOUNT_ID = ''default''"

definition normalizeAccountId :: "string option \<Rightarrow> string" where
  "normalizeAccountId raw =
     (let trimmed = trim (case raw of None \<Rightarrow> [] | Some s \<Rightarrow> s)
      in if trimmed = [] then DEFAULT_ACCOUNT_ID else trimmed)"

section \<open>The patch engine: adding an account\<close>

text \<open>\<open>v ?? d\<close>.\<close>

definition nullish :: "jv \<Rightarrow> jv \<Rightarrow> jv" where
  "nullish v d = (if v = JUndef \<or> v = JNull then d else v)"

text \<open>\<open>typeof v === "object"\<close>: an object, an array or \<open>null\<close>.\<close>

fun typeofObject :: "jv \<Rightarrow> bool" where
  "typeofObject (JObj m) = True"
| "typeofObject (JArr xs) = True"
| "typeofObject JNull = True"
| "typeofObject _ = False"

text \<open>
  The optional fields shared by \<open>ProvidersAddOptions\<close> and by the parameter object of
  \<open>applyProviderAccountConfig\<close>; \<open>None\<close> is an absent field.
\<close>

record AccountFields =
  name :: "string option"
  token :: "string option"
  tokenFile :: "string option"
  botToken :: "string option"
  appToken :: "string option"
  signalNumber :: "string option"
  cliPath :: "string option"
  dbPath :: "string option"
  service :: "string option"
  region :: "string option"
  authDir :: "string option"
  httpUrl :: "string option"
  httpHost :: "string option"
  httpPort :: "string option"
  useEnv :: "bool option"

record ProvidersAddOptions = AccountFields +
  provider :: "string option"
  account :: "string option"

text \<open>
  \<open>applyAccountName({cfg, provider, accountId, name})\<close>. \<open>params.name?.trim()\<close> is
  \<open>undefined\<close> for an absent name.
\<close>

definition applyAccountName :: "obj \<Rightarrow> ChatProvider \<Rightarrow> string \<Rightarrow> string option \<Rightarrow> obj" where
  "applyAccountName cfg key accountId0 nm =
     (case map_option trim nm of
        None \<Rightarrow> cfg
      | Some trimmed \<Rightarrow>
          if trimmed = [] then cfg
          else
            let accountId = normalizeAccountId (Some accountId0)
            in if key = Whatsapp then
                 cfg(''whatsapp'' \<mapsto> JObj ((spread (ownProp cfg ''whatsapp''))
                   (''accounts'' \<mapsto> JObj ((spread (get (ownProp cfg ''whatsapp'') ''accounts''))
                     (accountId \<mapsto> JObj
                        ((spread (get (get (ownProp cfg ''whatsapp'') ''accounts'') accountId))
                           (''name'' \<mapsto> JStr trimmed)))))))
               else if accountId = DEFAULT_ACCOUNT_ID then
                 let baseConfig = ownProp cfg (providerKey key);
                     safeBase = (if typeofObject baseConfig \<and> truthy baseConfig
                                 then baseConfig else JObj Map.empty)
                 in cfg(providerKey key \<mapsto> JObj ((spread safeBase)(''name'' \<mapsto> JStr trimmed)))
               else
                 let base = ownProp cfg (providerKey key);
                     baseAccounts = nullish (get base ''accounts'') (JObj Map.empty);
                     existingAccount = nullish (get baseAccounts accountId) (JObj Map.empty)
                 in cfg(providerKey key \<mapsto> JObj ((spread base)
                      (''accounts'' \<mapsto> JObj ((spread baseAccounts)
                         (accountId \<mapsto> JObj ((spread existingAccount)
                                                (''name'' \<mapsto> JStr trimmed))))))))"

text \<open>\<open>...(v ? { k: Number(v) } : {})\<close>; the conversion \<open>Number\<close> of the language is a parameter.\<close>

fun optNumber :: "(string \<Rightarrow> jv) \<Rightarrow> string \<Rightarrow> string option \<Rightarrow> obj" where
  "optNumber Number k None = Map.empty"
| "optNumber Number k (Some s) = (if s \<noteq> [] then [k \<mapsto> Number s] else Map.empty)"

text \<open>\<open>params.name?.trim() || undefined\<close>.\<close>

definition trimmedName :: "string option \<Rightarrow> string option" where
  "trimmedName nm = (if given (map_option trim nm) then map_option trim nm else None)"

text \<open>
  The properties that the branch of \<open>applyProviderAccountConfig\<close> for a provider other
  than whatsapp spreads between \<open>enabled: true\<close> and the name; \<open>isDefault\<close> is
  \<open>accountId === DEFAULT_ACCOUNT_ID\<close>. Only the default branches of telegram, discord and
  slack look at \<open>useEnv\<close>.
\<close>

fun providerFields ::
  "(string \<Rightarrow> jv) \<Rightarrow> ChatProvider \<Rightarrow> bool \<Rightarrow> 'a AccountFields_scheme \<Rightarrow> obj" where
  "providerFields Number Telegram isDefault params =
     (if isDefault \<and> useEnv params = Some True then Map.empty
      else if given (tokenFile params) then optField ''tokenFile'' (tokenFile params)
      else if given (token params) then optField ''botToken'' (token params)
      else Map.empty)"
| "providerFields Number Discord isDefault params =
     (if isDefault \<and> useEnv params = Some True then Map.empty
      else optField ''token'' (token params))"
| "providerFields Number Slack isDefault params =
     (if isDefault \<and> useEnv params = Some True then Map.empty
      else optField ''botToken'' (botToken params) ++ optField ''appToken'' (appToken params))"
| "providerFields Number Signal isDefault params =
     optField ''account'' (signalNumber params)
     ++ optField ''cliPath'' (cliPath params)
     ++ optField ''httpUrl'' (httpUrl params)
     ++ optField ''httpHost'' (httpHost params)
     ++ optNumber Number ''httpPort'' (httpPort params)"
| "providerFields Number Imessage isDefault params =
     optField ''cliPath'' (cliPath params)
     ++ optField ''dbPath'' (dbPath params)
     ++ optField ''service'' (service params)
     ++ optField ''region'' (region params)"
| "providerFields Number Whatsapp isDefault params = Map.empty"

text \<open>
  \<open>applyProviderAccountConfig(params)\<close>, with \<open>params.cfg\<close>, \<open>params.provider\<close> and
  \<open>params.accountId\<close> as arguments of their own and the optional fields in \<open>params\<close>.
  \<open>sec\<close> is \<open>next[provider]\<close> and \<open>entry\<close> is \<open>next[provider]?.accounts?.[accountId]\<close>.
  The five branches after whatsapp have one shape and differ in \<open>providerFields\<close>.
\<close>

definition applyProviderAccountConfig ::
  "(string \<Rightarrow> jv) \<Rightarrow> obj \<Rightarrow> ChatProvider \<Rightarrow> string \<Rightarrow> 'a AccountFields_scheme \<Rightarrow> obj" where
  "applyProviderAccountConfig Number cfg key accountId0 params =
     (let accountId = normalizeAccountId (Some accountId0);
          nm = trimmedName (name params);
          next = applyAccountName cfg key accountId nm;
          sec = ownProp next (providerKey key);
          entry = get (get sec ''accounts'') accountId
      in if key = Whatsapp then
           next(''whatsapp'' \<mapsto> JObj ((spread sec)
             (''accounts'' \<mapsto> JObj ((spread (get sec ''accounts''))
                (accountId \<mapsto> JObj ((spread entry ++ optField ''authDir'' (authDir params))
                                       (''enabled'' \<mapsto> JBool True)
                                      ++ optField ''name'' nm))))))
         else if accountId = DEFAULT_ACCOUNT_ID then
           next(providerKey key \<mapsto> JObj ((spread sec)(''enabled'' \<mapsto> JBool True)
                  ++ providerFields Number key True params
                  ++ optField ''name'' nm))
         else
           next(providerKey key \<mapsto> JObj ((spread sec)
             (''enabled'' \<mapsto> JBool True,
              ''accounts'' \<mapsto> JObj ((spread (get sec ''accounts''))
                 (accountId \<mapsto> JObj ((spread entry)(''enabled'' \<mapsto> JBool True)
                                        ++ providerFields Number key False params
                                        ++ optField ''name'' nm)))))))"

section \<open>The patch engine: disabling and deleting an account\<close>

text \<open>
  The two closures of \<open>providersRemoveCommand\<close>. Each reads and assigns the variable
  \<open>next\<close> of the command and reads its constant \<open>accountKey\<close>; here \<open>next\<close> and
  \<open>accountKey\<close> are arguments and the assigned \<open>next\<close> is the result.
\<close>

definition setAccountEnabled :: "string \<Rightarrow> ChatProvider \<Rightarrow> bool \<Rightarrow> obj \<Rightarrow> obj" where
  "setAccountEnabled accountKey key enabled next =
     (if key = Whatsapp then
        next(''whatsapp'' \<mapsto> JObj ((spread (ownProp next ''whatsapp''))
          (''accounts'' \<mapsto> JObj ((spread (get (ownProp next ''whatsapp'') ''accounts''))
            (accountKey \<mapsto> JObj
               ((spread (get (get (ownProp next ''whatsapp'') ''accounts'') accountKey))
                  (''enabled'' \<mapsto> JBool enabled)))))))
      else
        let base = ownProp next (providerKey key);
            baseAccounts = nullish (get base ''accounts'') (JObj Map.empty);
            existingAccount = nullish (get baseAccounts accountKey) (JObj Map.empty)
        in if accountKey = DEFAULT_ACCOUNT_ID \<and> \<not> truthy (get base ''accounts'') then
             next(providerKey key \<mapsto> JObj ((spread base)(''enabled'' \<mapsto> JBool enabled)))
           else
             next(providerKey key \<mapsto> JObj ((spread base)
               (''accounts'' \<mapsto> JObj ((spread baseAccounts)
                  (accountKey \<mapsto> JObj ((spread existingAccount)
                                          (''enabled'' \<mapsto> JBool enabled))))))))"

text \<open>\<open>Object.keys(accounts).length ? accounts : undefined\<close>.\<close>

definition accountsOrUndefined :: "obj \<Rightarrow> jv" where
  "accountsOrUndefined accounts = (if dom accounts \<noteq> {} then JObj accounts else JUndef)"

text \<open>
  The singleton fields that \<open>deleteAccount\<close> sets to \<open>undefined\<close> on the section when it
  deletes the default account of a section with accounts.
\<close>

fun clearedFields :: "ChatProvider \<Rightarrow> string list" where
  "clearedFields Telegram = [''botToken'', ''tokenFile'', ''name'']"
| "clearedFields Discord = [''token'', ''name'']"
| "clearedFields Slack = [''botToken'', ''appToken'', ''name'']"
| "clearedFields Signal =
     [''account'', ''httpUrl'', ''httpHost'', ''httpPort'', ''cliPath'', ''name'']"
| "clearedFields Imessage = [''cliPath'', ''dbPath'', ''service'', ''region'', ''name'']"
| "clearedFields Whatsapp = []"

definition undefinedFields :: "string list \<Rightarrow> obj" where
  "undefinedFields ks = map_of (map (\<lambda>k. (k, JUndef)) ks)"

definition deleteAccount :: "string \<Rightarrow> ChatProvider \<Rightarrow> obj \<Rightarrow> obj" where
  "deleteAccount accountKey key next =
     (if key = Whatsapp then
        let accounts = (spread (get (ownProp next ''whatsapp'') ''accounts''))(accountKey := None)
        in next(''whatsapp'' \<mapsto> JObj ((spread (ownProp next ''whatsapp''))
             (''accounts'' \<mapsto> accountsOrUndefined accounts)))
      else
        let base = ownProp next (providerKey key)
        in if accountKey \<noteq> DEFAULT_ACCOUNT_ID then
             let accounts = (spread (get base ''accounts''))(accountKey := None)
             in next(providerKey key \<mapsto> JObj ((spread base)
                  (''accounts'' \<mapsto> accountsOrUndefined accounts)))
           else if truthy (get base ''accounts'') \<and> dom (spread (get base ''accounts'')) \<noteq> {} then
             let accounts = (spread (get base ''accounts''))(accountKey := None)
             in next(providerKey key \<mapsto> JObj ((spread base)
                  (''accounts'' \<mapsto> accountsOrUndefined accounts)
                  ++ undefinedFields (clearedFields key)))
           else next(providerKey key := None))"

section \<open>The commands, on their flag-driven paths\<close>

text \<open>
  What a command does to the outside: the lines given to \<open>runtime.error\<close> and
  \<open>runtime.log\<close>, the codes given to \<open>runtime.exit\<close>, and the documents given to
  \<open>writeConfigFile\<close>, each in order.
\<close>

record Effects =
  errorLines :: "string list"
  logLines :: "string list"
  exitCodes :: "int list"
  configWrites :: "obj list"

text \<open>\<open>runtime.error(msg); runtime.exit(1); return;\<close>\<close>

definition fail :: "string \<Rightarrow> Effects \<Rightarrow> Effects" where
  "fail msg eff = eff\<lparr>errorLines := errorLines eff @ [msg], exitCodes := exitCodes eff @ [1]\<rparr>"

text \<open>
  \<open>providersAddCommand(opts, runtime, params)\<close> when \<open>params?.hasFlags\<close> is not
  \<open>false\<close>, from the point where \<open>requireValidConfig\<close> has returned \<open>cfg\<close>.
\<close>

definition providersAddCommand ::
  "(string \<Rightarrow> jv) \<Rightarrow> obj \<Rightarrow> ProvidersAddOptions \<Rightarrow> Effects \<Rightarrow> Effects" where
  "providersAddCommand Number cfg opts eff =
     (case normalizeChatProvider (provider opts) of
        None \<Rightarrow>
          fail (''Unknown provider: '' @ (case provider opts of None \<Rightarrow> [] | Some s \<Rightarrow> s)) eff
      | Some key \<Rightarrow>
          let accountId = normalizeAccountId (account opts);
              envFlag = (useEnv opts = Some True)
          in if key = Telegram \<and> envFlag \<and> accountId \<noteq> DEFAULT_ACCOUNT_ID then
               fail ''TELEGRAM_BOT_TOKEN can only be used for the default account.'' eff
             else if key = Telegram \<and> \<not> envFlag \<and> \<not> given (token opts)
                     \<and> \<not> given (tokenFile opts) then
               fail ''Telegram requires --token or --token-file (or --use-env).'' eff
             else if key = Discord \<and> envFlag \<and> accountId \<noteq> DEFAULT_ACCOUNT_ID then
               fail ''DISCORD_BOT_TOKEN can only be used for the default account.'' eff
             else if key = Discord \<and> \<not> envFlag \<and> \<not> given (token opts) then
               fail ''Discord requires --token (or --use-env).'' eff
             else if key = Slack \<and> envFlag \<and> accountId \<noteq> DEFAULT_ACCOUNT_ID then
               fail ''Slack env tokens can only be used for the default account.'' eff
             else if key = Slack \<and> \<not> envFlag
                     \<and> (\<not> given (botToken opts) \<or> \<not> given (appToken opts)) then
               fail ''Slack requires --bot-token and --app-token (or --use-env).'' eff
             else if key = Signal \<and> \<not> given (signalNumber opts) \<and> \<not> given (httpUrl opts)
                     \<and> \<not> given (httpHost opts) \<and> \<not> given (httpPort opts)
                     \<and> \<not> given (cliPath opts) then
               fail (''Signal requires --signal-number or ''
                     @ ''--http-url/--http-host/--http-port/--cli-path.'') eff
             else
               let nextConfig = applyProviderAccountConfig Number cfg key accountId
                                  (opts\<lparr>useEnv := Some envFlag\<rparr>)
               in eff\<lparr>configWrites := configWrites eff @ [nextConfig],
                      logLines := logLines eff
                        @ [''Added '' @ providerKey key @ '' account '' @ [CHR 0x22]
                           @ accountId @ [CHR 0x22] @ ''.'']\<rparr>)"

text \<open>
  \<open>providersRemoveCommand(opts, runtime, params)\<close> when \<open>params?.hasFlags\<close> is not
  \<open>false\<close>, from the point where \<open>requireValidConfig\<close> has returned \<open>cfg\<close>. The three
  fields of \<open>ProvidersRemoveOptions\<close> are the arguments \<open>optProvider\<close>, \<open>optAccount\<close> and
  \<open>optDelete\<close>; \<open>ok\<close> is the answer to the confirmation prompt, which is asked only
  when the delete flag is not set.
\<close>

definition providersRemoveCommand ::
  "obj \<Rightarrow> string option \<Rightarrow> string option \<Rightarrow> bool option \<Rightarrow> bool \<Rightarrow> Effects \<Rightarrow> Effects" where
  "providersRemoveCommand cfg optProvider optAccount optDelete ok eff =
     (let accountId = normalizeAccountId optAccount;
          deleteConfig = (optDelete = Some True)
      in case normalizeChatProvider optProvider of
           None \<Rightarrow> fail ''Provider is required. Use --provider <name>.'' eff
         | Some key \<Rightarrow>
             if \<not> deleteConfig \<and> \<not> ok then eff
             else
               let accountKey = (if accountId \<noteq> [] then accountId else DEFAULT_ACCOUNT_ID);
                   next = (if deleteConfig then deleteAccount accountKey key cfg
                           else setAccountEnabled accountKey key False cfg)
               in eff\<lparr>configWrites := configWrites eff @ [next],
                      logLines := logLines eff
                        @ [(if deleteConfig then ''Deleted '' else ''Disabled '')
                           @ providerKey key @ '' account '' @ [CHR 0x22]
                           @ accountKey @ [CHR 0x22] @ ''.'']\<rparr>)"

section \<open>Views of the document used to state the properties\<close>

text \<open>
  Where the fields of an account live: whatsapp keeps every account, the default one
  too, in \<open>accounts[accountId]\<close>; the other five keep the default account in the fields
  of the section itself and a named account in \<open>accounts[accountId]\<close>.
\<close>

definition accountRecord :: "obj \<Rightarrow> ChatProvider \<Rightarrow> string \<Rightarrow> obj" where
  "accountRecord cfg key accountId =
     (if key = Whatsapp \<or> accountId \<noteq> DEFAULT_ACCOUNT_ID
      then spread (get (get (ownProp cfg (providerKey key)) ''accounts'') accountId)
      else spread (ownProp cfg (providerKey key)))"

text \<open>
  The field of the add request that supplies the property \<open>k\<close> of an account of a
  provider, after the field sets of the specification: whatsapp \<open>authDir\<close>; telegram
  \<open>tokenFile\<close> and \<open>token\<close> (stored as \<open>botToken\<close>); discord \<open>token\<close>; slack
  \<open>botToken\<close> and \<open>appToken\<close>; signal \<open>signalNumber\<close> (stored as \<open>account\<close>),
  \<open>cliPath\<close>, \<open>httpUrl\<close>, \<open>httpHost\<close> and \<open>httpPort\<close>; imessage \<open>cliPath\<close>,
  \<open>dbPath\<close>, \<open>service\<close> and \<open>region\<close>; for all of them the trimmed \<open>name\<close>.
\<close>

definition requestField :: "ChatProvider \<Rightarrow> string \<Rightarrow> 'a AccountFields_scheme \<Rightarrow> string option" where
  "requestField key k params =
     (if k = ''name'' then map_option trim (name params)
      else case key of
        Whatsapp \<Rightarrow> (if k = ''authDir'' then authDir params else None)
      | Telegram \<Rightarrow> (if k = ''tokenFile'' then tokenFile params
                      else if k = ''botToken'' then token params else None)
      | Discord \<Rightarrow> (if k = ''token'' then token params else None)
      | Slack \<Rightarrow> (if k = ''botToken'' then botToken params
                   else if k = ''appToken'' then appToken params else None)
      | Signal \<Rightarrow> (if k = ''account'' then signalNumber params
                    else if k = ''cliPath'' then cliPath params
                    else if k = ''httpUrl'' then httpUrl params
                    else if k = ''httpHost'' then httpHost params
                    else if k = ''httpPort'' then httpPort params else None)
      | Imessage \<Rightarrow> (if k = ''cliPath'' then cliPath params
                      else if k = ''dbPath'' then dbPath params
                      else if k = ''service'' then service params
                      else if k = ''region'' then region params else None))"

text \<open>
  What the add patch does to the record of the account, as one function of the record:
  \<open>{...e, enabled: true, ...fs, ...(name ? { name } : {})}\<close>. The lemma
  \<open>apply_section\<close> below derives it from \<open>applyProviderAccountConfig\<close>.
\<close>

definition addedEntry :: "obj \<Rightarrow> string option \<Rightarrow> obj \<Rightarrow> obj" where
  "addedEntry fs nm e = e(''enabled'' \<mapsto> JBool True) ++ fs ++ optField ''name'' nm"

text \<open>
  The WhiteSpace and LineTerminator code points of ECMAScript, and the UTF-8 encoding of
  a code point below U+10000 as byte values, against which the byte table \<open>whiteSpaces\<close>
  is checked.
\<close>

definition whiteSpaceCodePoints :: "nat list" where
  "whiteSpaceCodePoints =
     [0x09, 0x0A, 0x0B, 0x0C, 0x0D, 0x20, 0xA0, 0x1680,
      0x2000, 0x2001, 0x2002, 0x2003, 0x2004, 0x2005, 0x2006, 0x2007, 0x2008, 0x2009, 0x200A,
      0x2028, 0x2029, 0x202F, 0x205F, 0x3000, 0xFEFF]"

definition utf8 :: "nat \<Rightarrow> nat list" where
  "utf8 n =
     (if n < 0x80 then [n]
      else if n < 0x800 then [0xC0 + n div 64, 0x80 + n mod 64]
      else [0xE0 + n div 4096, 0x80 + (n div 64) mod 64, 0x80 + n mod 64])"

text \<open>
  Matching a provider name without regard to case, stated on the bytes. A letter \<open>d\<close> of
  a name (\<open>a\<close>..\<open>z\<close>) is matched by \<open>d\<close> itself, by its capital, and, for \<open>k\<close>, by
  the Kelvin sign; \<open>caseVariant s name\<close> holds when \<open>s\<close> is made of one such form for
  each letter of \<open>name\<close>, in order.
\<close>

definition isLowerLetter :: "char \<Rightarrow> bool" where
  "isLowerLetter d = (97 \<le> (of_char d :: nat) \<and> (of_char d :: nat) \<le> 122)"

definition letterForms :: "char \<Rightarrow> string list" where
  "letterForms d =
     [d] # (if isLowerLetter d then [[char_of ((of_char d :: nat) - 32)]] else [])
         @ (if d = CHR ''k'' then [[CHR 0xE2, CHR 0x84, CHR 0xAA]] else [])"

fun caseVariant :: "string \<Rightarrow> string \<Rightarrow> bool" where
  "caseVariant s [] = (s = [])"
| "caseVariant s (d # ds) =
     list_ex (\<lambda>piece. startsWith s piece \<and> caseVariant (drop (length piece) s) ds)
             (letterForms d)"

text \<open>No token of \<open>ws\<close> is the beginning of a string that begins with another one.\<close>

definition prefixFree :: "string list \<Rightarrow> bool" where
  "prefixFree ws =
     (\<forall>w \<in> set ws. \<forall>w' \<in> set ws. \<forall>r. startsWith (w @ r) w' \<longrightarrow> w' = w)"

text \<open>
  What reading \<open>accounts\<close> off a section gives when no empty map is left there:
  \<open>undefined\<close> (the key is missing, or holds \<open>undefined\<close> and is dropped when the
  document is serialized), or an object with at least one key.
\<close>

definition accountsShape :: "jv \<Rightarrow> bool" where
  "accountsShape sec =
     (case get sec ''accounts'' of JUndef \<Rightarrow> True | JObj m \<Rightarrow> dom m \<noteq> {} | _ \<Rightarrow> False)"

text \<open>
  The validation failures of the flag-driven add command, as the specification lists
  them: an unknown provider; telegram without \<open>token\<close> or \<open>tokenFile\<close> and without
  \<open>useEnv\<close>; discord without \<open>token\<close> and without \<open>useEnv\<close>; slack without both
  \<open>botToken\<close> and \<open>appToken\<close> and without \<open>useEnv\<close>; signal with none of
  \<open>signalNumber\<close>, \<open>httpUrl\<close>, \<open>httpHost\<close>, \<open>httpPort\<close>, \<open>cliPath\<close>; \<open>useEnv\<close> with an
  account other than the default one on telegram, discord or slack.
\<close>

definition validationFailure :: "ProvidersAddOptions \<Rightarrow> bool" where
  "validationFailure opts =
     (case normalizeChatProvider (provider opts) of
        None \<Rightarrow> True
      | Some key \<Rightarrow>
          (key = Telegram \<and> useEnv opts \<noteq> Some True
             \<and> \<not> given (token opts) \<and> \<not> given (tokenFile opts))
        \<or> (key = Discord \<and> useEnv opts \<noteq> Some True \<and> \<not> given (token opts))
        \<or> (key = Slack \<and> useEnv opts \<noteq> Some True
             \<and> \<not> (given (botToken opts) \<and> given (appToken opts)))
        \<or> (key = Signal \<and> \<not> given (signalNumber opts) \<and> \<not> given (httpUrl opts)
             \<and> \<not> given (httpHost opts) \<and> \<not> given (httpPort opts)
             \<and> \<not> given (cliPath opts))
        \<or> (key \<in> {Telegram, Discord, Slack} \<and> useEnv opts = Some True
             \<and> normalizeAccountId (account opts) \<noteq> DEFAULT_ACCOUNT_ID))"

text \<open>The diagnostic that names the requirement missed, for each of these failures.\<close>

definition missingRequirement :: "ProvidersAddOptions \<Rightarrow> string" where
  "missingRequirement opts =
     (case normalizeChatProvider (provider opts) of
        None \<Rightarrow> ''Unknown provider: '' @ (case provider opts of None \<Rightarrow> [] | Some s \<Rightarrow> s)
      | Some Telegram \<Rightarrow>
          if useEnv opts = Some True
          then ''TELEGRAM_BOT_TOKEN can only be used for the default account.''
          else ''Telegram requires --token or --token-file (or --use-env).''
      | Some Discord \<Rightarrow>
          if useEnv opts = Some True
          then ''DISCORD_BOT_TOKEN can only be used for the default account.''
          else ''Discord requires --token (or --use-env).''
      | Some Slack \<Rightarrow>
          if useEnv opts = Some True
          then ''Slack env tokens can only be used for the default account.''
          else ''Slack requires --bot-token and --app-token (or --use-env).''
      | Some Signal \<Rightarrow>
          ''Signal requires --signal-number or --http-url/--http-host/--http-port/--cli-path.''
      | Some _ \<Rightarrow> [])"

section \<open>Example inputs\<close>

definition noFields :: AccountFields where
  "noFields = \<lparr>name = None, token = None, tokenFile = None, botToken = None, appToken = None,
     signalNumber = None, cliPath = None, dbPath = None, service = None, region = None,
     authDir = None, httpUrl = None, httpHost = None, httpPort = None, useEnv = None\<rparr>"

definition noOptions :: ProvidersAddOptions where
  "noOptions = \<lparr>name = None, token = None, tokenFile = None, botToken = None, appToken = None,
     signalNumber = None, cliPath = None, dbPath = None, service = None, region = None,
     authDir = None, httpUrl = None, httpHost = None, httpPort = None, useEnv = None,
     provider = None, account = None\<rparr>"

text \<open>A conversion for the examples; none of them supplies \<open>httpPort\<close>.\<close>

definition noNumber :: "string \<Rightarrow> jv" where
  "noNumber s = JUndef"

text \<open>\<open>{ telegram: { botToken: "abc" } }\<close>\<close>

definition telegramFlat :: obj where
  "telegramFlat = [''telegram'' \<mapsto> JObj [''botToken'' \<mapsto> JStr ''abc'']]"

text \<open>\<open>{ discord: { enabled: false, token: "abc" } }\<close>\<close>

definition discordDisabled :: obj where
  "discordDisabled = [''discord'' \<mapsto> JObj [''enabled'' \<mapsto> JBool False, ''token'' \<mapsto> JStr ''abc'']]"

text \<open>\<open>{ telegram: { botToken: "abc", allowFrom: ["12345"] } }\<close>\<close>

definition telegramExtra :: obj where
  "telegramExtra = [''telegram'' \<mapsto> JObj [''botToken'' \<mapsto> JStr ''abc'',
                                             ''allowFrom'' \<mapsto> JArr [JStr ''12345'']]]"

text \<open>
  \<open>{ telegram: { botToken: "abc", allowFrom: ["12345"],
       accounts: { default: { enabled: true }, work: { botToken: "xyz" } } } }\<close>
\<close>

definition telegramTwo :: obj where
  "telegramTwo = [''telegram'' \<mapsto> JObj [''botToken'' \<mapsto> JStr ''abc'',
      ''allowFrom'' \<mapsto> JArr [JStr ''12345''],
      ''accounts'' \<mapsto> JObj [''default'' \<mapsto> JObj [''enabled'' \<mapsto> JBool True],
                               ''work'' \<mapsto> JObj [''botToken'' \<mapsto> JStr ''xyz'']]]]"

text \<open>\<open>{ telegram: { botToken: "abc", accounts: { default: { enabled: true } } } }\<close>\<close>

definition telegramDefaultOnly :: obj where
  "telegramDefaultOnly = [''telegram'' \<mapsto> JObj [''botToken'' \<mapsto> JStr ''abc'',
      ''accounts'' \<mapsto> JObj [''default'' \<mapsto> JObj [''enabled'' \<mapsto> JBool True]]]]"

text \<open>\<open>{ whatsapp: { accounts: { work: { authDir: "/w" } } } }\<close>\<close>

definition whatsappWork :: obj where
  "whatsappWork = [''whatsapp'' \<mapsto> JObj [''accounts'' \<mapsto>
      JObj [''work'' \<mapsto> JObj [''authDir'' \<mapsto> JStr ''/w'']]]]"

definition noEffects :: Effects where
  "noEffects = \<lparr>errorLines = [], logLines = [], exitCodes = [], configWrites = []\<rparr>"

section \<open>Strings and account ids: lemmas\<close>

lemma startsWith_length: "startsWith s w \<Longrightarrow> length w \<le> length s"
proof -
  assume "startsWith s w"
  then have "length (take (length w) s) = length w" by (simp add: startsWith_def)
  then show ?thesis by simp
qed

lemma startsWith_append: "startsWith s w \<Longrightarrow> s = w @ drop (length w) s"
  by (metis append_take_drop_id startsWith_def)

lemma stripTokens_clean: "find (startsWith (stripTokens ws s)) ws = None"
proof (induction ws s rule: stripTokens.induct)
  case (1 ws s)
  show ?case
  proof (cases "find (startsWith s) ws")
    case None
    then show ?thesis by (simp add: stripTokens.simps[of ws s])
  next
    case (Some w)
    with 1 show ?thesis by (simp add: stripTokens.simps[of ws s])
  qed
qed

lemma stripTokens_fix: "find (startsWith s) ws = None \<Longrightarrow> stripTokens ws s = s"
  by (simp add: stripTokens.simps[of ws s])

lemma stripTokens_idem: "stripTokens ws (stripTokens ws s) = stripTokens ws s"
  by (simp add: stripTokens_fix stripTokens_clean)

lemma stripTokens_split:
  "\<exists>pre. set pre \<subseteq> set ws \<and> s = concat pre @ stripTokens ws s"
proof (induction ws s rule: stripTokens.induct)
  case (1 ws s)
  show ?case
  proof (cases "find (startsWith s) ws")
    case None
    then have "set [] \<subseteq> set ws \<and> s = concat [] @ stripTokens ws s"
      by (simp add: stripTokens.simps[of ws s])
    then show ?thesis by blast
  next
    case (Some w)
    then have w: "w \<in> set ws" "startsWith s w"
      by (auto simp: find_Some_iff)
    from 1[OF Some] obtain pre where pre: "set pre \<subseteq> set ws"
      "drop (length w) s = concat pre @ stripTokens ws (drop (length w) s)" by blast
    have "stripTokens ws s = stripTokens ws (drop (length w) s)"
      using Some by (simp add: stripTokens.simps[of ws s])
    with pre w startsWith_append[OF w(2)]
    have "set (w # pre) \<subseteq> set ws \<and> s = concat (w # pre) @ stripTokens ws s"
      by (metis append.assoc concat.simps(2) insert_subset list.simps(15))
    then show ?thesis by blast
  qed
qed

lemma startsWith_take: "startsWith (take k a) w \<Longrightarrow> startsWith a w"
proof -
  assume h: "startsWith (take k a) w"
  then have "length w \<le> length (take k a)" by (rule startsWith_length)
  then have "length w \<le> k" by simp
  then have "take (length w) (take k a) = take (length w) a" by (simp add: min_def)
  with h show ?thesis by (simp add: startsWith_def)
qed

lemma clean_take:
  "find (startsWith a) ws = None \<Longrightarrow> find (startsWith (take k a)) ws = None"
  by (auto simp: find_None_iff dest: startsWith_take)

lemma trim_idem: "trim (trim s) = trim s"
proof -
  let ?a = "stripTokens whiteSpaces s"
  let ?b = "stripTokens (map rev whiteSpaces) (rev ?a)"
  obtain pre where "rev ?a = concat pre @ ?b"
    using stripTokens_split[of "map rev whiteSpaces" "rev ?a"] by blast
  then have "?a = rev ?b @ rev (concat pre)"
    by (metis rev_append rev_rev_ident)
  then have "rev ?b = take (length ?b) ?a"
    by (metis append_eq_conv_conj length_rev)
  then have "find (startsWith (rev ?b)) whiteSpaces = None"
    by (metis clean_take stripTokens_clean)
  then have "stripTokens whiteSpaces (rev ?b) = rev ?b" by (rule stripTokens_fix)
  then show ?thesis
    by (simp add: trim_def stripTokens_idem)
qed

lemma trim_Nil: "trim [] = []"
  by code_simp

lemma trim_DEFAULT: "trim DEFAULT_ACCOUNT_ID = DEFAULT_ACCOUNT_ID"
  unfolding DEFAULT_ACCOUNT_ID_def by code_simp

lemma DEFAULT_nonempty: "DEFAULT_ACCOUNT_ID \<noteq> []"
  by (simp add: DEFAULT_ACCOUNT_ID_def)

lemma normalizeAccountId_idem:
  "normalizeAccountId (Some (normalizeAccountId raw)) = normalizeAccountId raw"
  by (simp add: normalizeAccountId_def Let_def trim_idem trim_DEFAULT DEFAULT_nonempty)

lemma normalizeAccountId_absent: "normalizeAccountId None = DEFAULT_ACCOUNT_ID"
  by (simp add: normalizeAccountId_def trim_Nil)

lemma normalizeAccountId_empty: "normalizeAccountId (Some []) = DEFAULT_ACCOUNT_ID"
  by (simp add: normalizeAccountId_def trim_Nil)

lemma normalizeAccountId_work: "normalizeAccountId (Some ''work'') = ''work''"
  by code_simp

lemma work_not_DEFAULT: "''work'' \<noteq> DEFAULT_ACCOUNT_ID"
  by (simp add: DEFAULT_ACCOUNT_ID_def)

lemma trimmedName_cases:
  "trimmedName x = None \<or> (\<exists>t. trimmedName x = Some t \<and> t \<noteq> [] \<and> trim t = t)"
  by (cases x) (auto simp: trimmedName_def trim_idem)

lemma trimmedName_absent: "\<not> given (map_option trim nm) \<Longrightarrow> trimmedName nm = None"
  by (simp add: trimmedName_def)

section \<open>The provider normalizer\<close>

lemma lowerChar_eq:
  assumes "isLowerLetter d"
  shows "lowerChar c = d \<longleftrightarrow> c = d \<or> c = char_of ((of_char d :: nat) - 32)"
proof -
  define n where "n = (of_char c :: nat)"
  define m where "m = (of_char d :: nat)"
  have m: "97 \<le> m" "m \<le> 122" using assms by (simp_all add: isLowerLetter_def m_def)
  have c: "c = char_of n" and d: "d = char_of m" by (simp_all add: n_def m_def)
  have up: "(of_char (char_of (m - 32) :: char) :: nat) = m - 32"
    using m by simp
  show ?thesis
  proof (cases "65 \<le> n \<and> n \<le> 90")
    case True
    then have l: "lowerChar c = char_of (n + 32)"
      by (simp add: lowerChar_def n_def)
    have "(char_of (n + 32) :: char) = d \<longleftrightarrow> n + 32 = m"
    proof
      assume "(char_of (n + 32) :: char) = d"
      then have "(of_char (char_of (n + 32) :: char) :: nat) = m" by (simp add: m_def)
      with True show "n + 32 = m" by simp
    next
      assume "n + 32 = m"
      then show "(char_of (n + 32) :: char) = d" by (simp add: d)
    qed
    moreover have "c \<noteq> d" using True m by (auto simp: n_def m_def)
    moreover have "c = char_of (m - 32) \<longleftrightarrow> n + 32 = m"
    proof
      assume "c = char_of (m - 32)"
      then have "n = m - 32" using up by (simp add: n_def)
      with m show "n + 32 = m" by simp
    next
      assume "n + 32 = m"
      then have "m - 32 = n" by simp
      then show "c = char_of (m - 32)" by (simp add: c)
    qed
    ultimately show ?thesis using l by (simp add: m_def)
  next
    case False
    then have l: "lowerChar c = c"
      by (auto simp: lowerChar_def n_def Let_def)
    have "c \<noteq> char_of (m - 32)"
    proof
      assume "c = char_of (m - 32)"
      then have "n = m - 32" using up by (simp add: n_def)
      with m False show False by arith
    qed
    then show ?thesis using l by (simp add: m_def)
  qed
qed

lemma toLowerCase_Nil_iff: "toLowerCase t = [] \<longleftrightarrow> t = []"
  by (cases t) auto

lemma startsWith_Cons1: "startsWith (c # cs) [x] \<longleftrightarrow> c = x"
  by (simp add: startsWith_def)

lemma upper_code:
  assumes "isLowerLetter d"
  shows "(of_char (char_of ((of_char d :: nat) - 32) :: char) :: nat) = of_char d - 32"
proof -
  define m where "m = (of_char d :: nat)"
  have "97 \<le> m" "m \<le> 122" using assms by (simp_all add: isLowerLetter_def m_def)
  then have "(of_char (char_of (m - 32) :: char) :: nat) = m - 32" by simp
  then show ?thesis by (simp add: m_def)
qed

lemma letterForms_first:
  assumes "isLowerLetter d" "piece \<in> set (letterForms d)"
  shows "piece = [CHR 0xE2, CHR 0x84, CHR 0xAA]
         \<or> (\<exists>f. piece = [f] \<and> 65 \<le> (of_char f :: nat) \<and> (of_char f :: nat) \<le> 122)"
proof -
  have "65 \<le> (of_char (char_of ((of_char d :: nat) - 32) :: char) :: nat)"
       "(of_char (char_of ((of_char d :: nat) - 32) :: char) :: nat) \<le> 122"
    using assms(1) unfolding upper_code[OF assms(1)] isLowerLetter_def by arith+
  then show ?thesis
    using assms by (auto simp: letterForms_def isLowerLetter_def split: if_splits)
qed

lemma not_letter:
  assumes "isLowerLetter d" "(of_char c :: nat) < 65 \<or> 122 < (of_char c :: nat)"
  shows "c \<noteq> d" "c \<noteq> char_of ((of_char d :: nat) - 32)"
proof -
  show "c \<noteq> d" using assms by (auto simp: isLowerLetter_def)
  show "c \<noteq> char_of ((of_char d :: nat) - 32)"
  proof
    assume "c = char_of ((of_char d :: nat) - 32)"
    then have "(of_char c :: nat) = of_char d - 32" using upper_code[OF assms(1)] by simp
    with assms show False by (auto simp: isLowerLetter_def)
  qed
qed

lemma caseVariant_Cons:
  "caseVariant s (d # ds) \<longleftrightarrow>
     (\<exists>piece \<in> set (letterForms d). startsWith s piece \<and> caseVariant (drop (length piece) s) ds)"
  by (simp add: list_ex_iff)

lemma take3_startsWith: "take 3 s = [a, b, c] \<longleftrightarrow> startsWith s [a, b, c]"
  by (simp add: startsWith_def numeral_3_eq_3)

lemma take2_startsWith: "take 2 s = [a, b] \<longleftrightarrow> startsWith s [a, b]"
  by (simp add: startsWith_def numeral_2_eq_2)

lemma startsWith_first: "startsWith (c # cs) (x # xs) \<Longrightarrow> c = x"
  by (simp add: startsWith_def)

lemma toLowerCase_Cons:
  "toLowerCase (c # cs) =
     (if startsWith (c # cs) [CHR 0xE2, CHR 0x84, CHR 0xAA] then
        CHR ''k'' # toLowerCase (drop 3 (c # cs))
      else if startsWith (c # cs) [CHR 0xC4, CHR 0xB0] then
        CHR ''i'' # CHR 0xCC # CHR 0x87 # toLowerCase (drop 2 (c # cs))
      else lowerChar c # toLowerCase cs)"
  unfolding toLowerCase.simps take3_startsWith take2_startsWith by simp

lemma toLowerCase_caseVariant:
  "list_all isLowerLetter N \<Longrightarrow> toLowerCase t = N \<longleftrightarrow> caseVariant t N"
proof (induction N arbitrary: t)
  case Nil
  then show ?case by (simp add: toLowerCase_Nil_iff)
next
  case (Cons d ds)
  then have d: "isLowerLetter d" and ds: "list_all isLowerLetter ds" by simp_all
  note IH = Cons.IH[OF ds]
  let ?up = "char_of ((of_char d :: nat) - 32) :: char"
  show ?case
  proof (cases t)
    case Nil
    then show ?thesis by (simp add: letterForms_def startsWith_def)
  next
    case (Cons c cs)
    have forms: "caseVariant t (d # ds) \<longleftrightarrow>
        (c = d \<and> caseVariant cs ds) \<or> (c = ?up \<and> caseVariant cs ds)
        \<or> (d = CHR ''k'' \<and> startsWith t [CHR 0xE2, CHR 0x84, CHR 0xAA]
             \<and> caseVariant (drop 3 t) ds)"
      unfolding caseVariant_Cons Cons using d
      by (auto simp: letterForms_def startsWith_Cons1 numeral_2_eq_2 numeral_3_eq_3)
    consider (K) "startsWith t [CHR 0xE2, CHR 0x84, CHR 0xAA]"
      | (I) "\<not> startsWith t [CHR 0xE2, CHR 0x84, CHR 0xAA]" "startsWith t [CHR 0xC4, CHR 0xB0]"
      | (O) "\<not> startsWith t [CHR 0xE2, CHR 0x84, CHR 0xAA]" "\<not> startsWith t [CHR 0xC4, CHR 0xB0]"
      by blast
    then show ?thesis
    proof cases
      case K
      then have c: "c = CHR 0xE2" unfolding Cons by (rule startsWith_first)
      have l: "toLowerCase t = CHR ''k'' # toLowerCase (drop 3 t)"
        using K unfolding Cons toLowerCase_Cons by simp
      have cd: "c \<noteq> d" "c \<noteq> ?up"
        using not_letter[OF d, of c] c by auto
      show ?thesis unfolding l forms using IH K cd by auto
    next
      case I
      then have c: "c = CHR 0xC4" unfolding Cons by (metis startsWith_first)
      have l: "toLowerCase t = CHR ''i'' # CHR 0xCC # CHR 0x87 # toLowerCase (drop 2 t)"
        using I unfolding Cons toLowerCase_Cons by simp
      have "toLowerCase t \<noteq> d # ds"
        using ds unfolding l by (auto simp: isLowerLetter_def)
      moreover have cd: "c \<noteq> d" "c \<noteq> ?up"
        using not_letter[OF d, of c] c by auto
      ultimately show ?thesis unfolding forms using I by auto
    next
      case O
      have l: "toLowerCase t = lowerChar c # toLowerCase cs"
        using O unfolding Cons toLowerCase_Cons by simp
      show ?thesis unfolding l forms using IH O lowerChar_eq[OF d] by auto
    qed
  qed
qed

lemma whiteSpaces_prefixFree: "prefixFree whiteSpaces"
  unfolding prefixFree_def whiteSpaces_def
  by (simp add: startsWith_def)

lemma rev_whiteSpaces_prefixFree: "prefixFree (map rev whiteSpaces)"
  unfolding prefixFree_def whiteSpaces_def
  by (simp add: startsWith_def)

lemma whiteSpaces_nonempty: "[] \<notin> set whiteSpaces"
  by (simp add: whiteSpaces_def)

lemma stripTokens_concat:
  assumes "prefixFree ws" "[] \<notin> set ws"
  shows "set pre \<subseteq> set ws \<Longrightarrow> stripTokens ws (concat pre @ t) = stripTokens ws t"
proof (induction pre)
  case Nil
  then show ?case by simp
next
  case (Cons w pre)
  then have w: "w \<in> set ws" "w \<noteq> []" using assms(2) by auto
  let ?s = "concat (w # pre) @ t"
  have sw: "startsWith ?s w" using w by (simp add: startsWith_def)
  then obtain w' where f: "find (startsWith ?s) ws = Some w'"
    using w(1) by (cases "find (startsWith ?s) ws") (auto simp: find_None_iff)
  then have "w' \<in> set ws" "startsWith ?s w'" by (auto simp: find_Some_iff)
  then have "w' = w" using assms(1) w(1) unfolding prefixFree_def
    by (metis append.assoc concat.simps(2))
  with f have "stripTokens ws ?s = stripTokens ws (drop (length w) ?s)"
    by (subst stripTokens.simps) simp
  moreover have "drop (length w) ?s = concat pre @ t" by simp
  ultimately show ?case using Cons by simp
qed

lemma clean_start:
  assumes "isLowerLetter d" "piece \<in> set (letterForms d)"
  shows "find (startsWith (piece @ r)) whiteSpaces = None"
  using letterForms_first[OF assms]
  by (auto simp: find_None_iff whiteSpaces_def startsWith_def)

lemma clean_end:
  assumes "isLowerLetter d" "piece \<in> set (letterForms d)"
  shows "find (startsWith (rev piece @ r)) (map rev whiteSpaces) = None"
  using letterForms_first[OF assms]
  by (auto simp: find_None_iff whiteSpaces_def startsWith_def)


lemma caseVariant_first:
  "caseVariant core (d # ds) \<Longrightarrow>
     \<exists>piece rest. piece \<in> set (letterForms d) \<and> core = piece @ rest"
  unfolding caseVariant_Cons by (metis startsWith_append)

lemma caseVariant_last:
  "N \<noteq> [] \<Longrightarrow> caseVariant core N \<Longrightarrow>
     \<exists>front piece. piece \<in> set (letterForms (last N)) \<and> core = front @ piece"
proof (induction N arbitrary: core)
  case Nil
  then show ?case by simp
next
  case (Cons d ds)
  from Cons.prems(2) obtain piece where p: "piece \<in> set (letterForms d)"
    "startsWith core piece" "caseVariant (drop (length piece) core) ds"
    unfolding caseVariant_Cons by blast
  show ?case
  proof (cases ds)
    case Nil
    with p have "core = [] @ piece"
      by (metis append_Nil append_Nil2 caseVariant.simps(1) startsWith_append)
    with p Nil show ?thesis by (metis last.simps)
  next
    case (Cons e es)
    then have "ds \<noteq> []" by simp
    from Cons.IH[OF this p(3)] obtain front q where
      q: "q \<in> set (letterForms (last ds))" "drop (length piece) core = front @ q" by blast
    have "core = (piece @ front) @ q"
      using startsWith_append[OF p(2)] q(2) by simp
    with q(1) \<open>ds \<noteq> []\<close> show ?thesis by (metis last.simps)
  qed
qed

lemma trim_exact:
  assumes "set pre \<subseteq> set whiteSpaces" "set post \<subseteq> set whiteSpaces"
    and "N \<noteq> []" "list_all isLowerLetter N" "caseVariant core N"
  shows "trim (concat pre @ core @ concat post) = core"
proof -
  obtain d ds where N: "N = d # ds" using assms(3) by (cases N) auto
  then have d: "isLowerLetter d" using assms(4) by simp
  have l: "isLowerLetter (last N)" using assms(3,4) by (simp add: list_all_iff)
  obtain p1 rest where p1: "p1 \<in> set (letterForms d)" "core = p1 @ rest"
    using caseVariant_first assms(5) N by blast
  obtain front p2 where p2: "p2 \<in> set (letterForms (last N))" "core = front @ p2"
    using caseVariant_last[OF assms(3) assms(5)] by blast
  have a: "stripTokens whiteSpaces (concat pre @ core @ concat post) = core @ concat post"
  proof -
    have "stripTokens whiteSpaces (concat pre @ core @ concat post)
            = stripTokens whiteSpaces (core @ concat post)"
      by (rule stripTokens_concat[OF whiteSpaces_prefixFree whiteSpaces_nonempty assms(1)])
    also have "\<dots> = core @ concat post"
      using clean_start[OF d p1(1), of "rest @ concat post"] p1(2)
      by (simp add: stripTokens_fix)
    finally show ?thesis .
  qed
  have r: "rev (core @ concat post) = concat (map rev (rev post)) @ rev core"
    by (simp add: rev_concat rev_map)
  have s: "set (map rev (rev post)) \<subseteq> set (map rev whiteSpaces)"
    using assms(2) by auto
  have ne: "[] \<notin> set (map rev whiteSpaces)"
    using whiteSpaces_nonempty by auto
  have "stripTokens (map rev whiteSpaces) (rev (core @ concat post))
          = stripTokens (map rev whiteSpaces) (rev core)"
    unfolding r by (rule stripTokens_concat[OF rev_whiteSpaces_prefixFree ne s])
  also have "\<dots> = rev core"
    using clean_end[OF l p2(1), of "rev front"] p2(2)
    by (simp add: stripTokens_fix)
  finally show ?thesis
    by (simp add: trim_def a)
qed

lemma trim_split:
  "\<exists>pre post. set pre \<subseteq> set whiteSpaces \<and> set post \<subseteq> set whiteSpaces
       \<and> s = concat pre @ trim s @ concat post"
proof -
  let ?a = "stripTokens whiteSpaces s"
  obtain pre where pre: "set pre \<subseteq> set whiteSpaces" "s = concat pre @ ?a"
    using stripTokens_split[of whiteSpaces s] by blast
  obtain q where q: "set q \<subseteq> set (map rev whiteSpaces)"
    "rev ?a = concat q @ stripTokens (map rev whiteSpaces) (rev ?a)"
    using stripTokens_split[of "map rev whiteSpaces" "rev ?a"] by blast
  have "?a = rev (rev ?a)" by simp
  also have "\<dots> = trim s @ concat (map rev (rev q))"
    by (subst q(2)) (simp add: trim_def rev_concat rev_map)
  finally have a: "?a = trim s @ concat (map rev (rev q))" .
  have "set (map rev (rev q)) \<subseteq> set whiteSpaces"
    using q(1) by auto
  with pre a show ?thesis by metis
qed

lemma find_providerKey:
  "find (\<lambda>p. providerKey p = s) CHAT_PROVIDERS = Some p \<longleftrightarrow> s = providerKey p"
  by (cases p) (auto simp: CHAT_PROVIDERS_def)

lemma providerKey_letters: "list_all isLowerLetter (providerKey p) \<and> providerKey p \<noteq> []"
  by (cases p) (simp_all add: isLowerLetter_def)

lemma imsg_letters: "list_all isLowerLetter ''imsg''"
  by (simp add: isLowerLetter_def)

lemma imsg_nonempty: "''imsg'' \<noteq> []"
  by simp

lemma normalizeChatProvider_lowered:
  "normalizeChatProvider raw = Some p \<longleftrightarrow>
      toLowerCase (trim (case raw of None \<Rightarrow> [] | Some s \<Rightarrow> s)) = providerKey p
      \<or> (toLowerCase (trim (case raw of None \<Rightarrow> [] | Some s \<Rightarrow> s)) = ''imsg'' \<and> p = Imessage)"
  by (cases p) (auto simp: normalizeChatProvider_def Let_def find_providerKey)

lemma lowered_trimmed_iff:
  assumes "list_all isLowerLetter N" "N \<noteq> []"
  shows "toLowerCase (trim s) = N \<longleftrightarrow>
     (\<exists>pre core post. s = concat pre @ core @ concat post
        \<and> set pre \<subseteq> set whiteSpaces \<and> set post \<subseteq> set whiteSpaces \<and> caseVariant core N)"
proof
  assume "toLowerCase (trim s) = N"
  then have "caseVariant (trim s) N"
    using toLowerCase_caseVariant[OF assms(1)] by simp
  with trim_split[of s] show "\<exists>pre core post. s = concat pre @ core @ concat post
        \<and> set pre \<subseteq> set whiteSpaces \<and> set post \<subseteq> set whiteSpaces \<and> caseVariant core N"
    by blast
next
  assume "\<exists>pre core post. s = concat pre @ core @ concat post
        \<and> set pre \<subseteq> set whiteSpaces \<and> set post \<subseteq> set whiteSpaces \<and> caseVariant core N"
  then obtain pre core post where h: "s = concat pre @ core @ concat post"
    "set pre \<subseteq> set whiteSpaces" "set post \<subseteq> set whiteSpaces" "caseVariant core N"
    by blast
  have "trim s = core"
    unfolding h(1) by (rule trim_exact[OF h(2) h(3) assms(2) assms(1) h(4)])
  then show "toLowerCase (trim s) = N"
    using toLowerCase_caseVariant[OF assms(1)] h(4) by simp
qed

text \<open>
  C9. \<open>normalizeChatProvider\<close> is a total function of its argument alone. It returns a
  provider exactly when the argument (the empty string when absent) is white space, then a
  case variant of the name of that provider, or of \<open>imsg\<close> for imessage, then white
  space; on every other argument it returns \<open>null\<close>, so on the absent and the empty one.
  The variants of a letter and the white space are listed byte by byte in \<open>letterForms\<close>
  and \<open>whiteSpaces\<close>, not taken from \<open>toLowerCase\<close> and \<open>trim\<close>; \<open>whiteSpaces\<close> is
  the UTF-8 encoding of the white space code points, and the forms of \<open>k\<close> are \<open>k\<close>
  (107), \<open>K\<close> (75) and the Kelvin sign U+212A. The last conjuncts run the function: on a padded mixed-case
  name, on the alias in capitals, on a name written with the Kelvin sign, and on two
  strings that are no names.
\<close>

theorem normalizeChatProvider_spec:
  "(normalizeChatProvider raw = Some p \<longleftrightarrow>
      (\<exists>pre core post.
          (case raw of None \<Rightarrow> [] | Some s \<Rightarrow> s) = concat pre @ core @ concat post
        \<and> set pre \<subseteq> set whiteSpaces \<and> set post \<subseteq> set whiteSpaces
        \<and> (caseVariant core (providerKey p) \<or> (caseVariant core ''imsg'' \<and> p = Imessage))))
   \<and> map (map of_char) whiteSpaces = map utf8 whiteSpaceCodePoints
   \<and> map (map of_char) (letterForms CHR ''k'') = [[107], [75], utf8 0x212A]
   \<and> normalizeChatProvider None = None
   \<and> normalizeChatProvider (Some []) = None
   \<and> normalizeChatProvider (Some ([CHR 0x09] @ '' TeleGram'' @ [CHR 0xC2, CHR 0xA0]))
       = Some Telegram
   \<and> normalizeChatProvider (Some ''IMSG '') = Some Imessage
   \<and> normalizeChatProvider (Some (''SLAC'' @ [CHR 0xE2, CHR 0x84, CHR 0xAA])) = Some Slack
   \<and> normalizeChatProvider (Some ''tele gram'') = None
   \<and> normalizeChatProvider (Some ''telegrams'') = None"
proof -
  let ?s = "case raw of None \<Rightarrow> [] | Some s \<Rightarrow> s"
  have general: "normalizeChatProvider raw = Some p \<longleftrightarrow>
      (\<exists>pre core post. ?s = concat pre @ core @ concat post
        \<and> set pre \<subseteq> set whiteSpaces \<and> set post \<subseteq> set whiteSpaces
        \<and> (caseVariant core (providerKey p) \<or> (caseVariant core ''imsg'' \<and> p = Imessage)))"
    unfolding normalizeChatProvider_lowered
      lowered_trimmed_iff[OF conjunct1[OF providerKey_letters] conjunct2[OF providerKey_letters]]
      lowered_trimmed_iff[OF imsg_letters imsg_nonempty]
    by blast
  have t1: "map (map of_char) whiteSpaces = map utf8 whiteSpaceCodePoints"
    by (simp add: whiteSpaces_def whiteSpaceCodePoints_def utf8_def)
  have t2: "map (map of_char) (letterForms CHR ''k'') = [[107], [75], utf8 0x212A]"
    by (simp add: letterForms_def isLowerLetter_def utf8_def)
  have e1: "normalizeChatProvider None = None" by code_simp
  have e2: "normalizeChatProvider (Some []) = None" by code_simp
  have e3: "normalizeChatProvider (Some ([CHR 0x09] @ '' TeleGram'' @ [CHR 0xC2, CHR 0xA0]))
       = Some Telegram" by code_simp
  have e4: "normalizeChatProvider (Some ''IMSG '') = Some Imessage" by code_simp
  have e5: "normalizeChatProvider (Some (''SLAC'' @ [CHR 0xE2, CHR 0x84, CHR 0xAA]))
       = Some Slack" by code_simp
  have e6: "normalizeChatProvider (Some ''tele gram'') = None" by code_simp
  have e7: "normalizeChatProvider (Some ''telegrams'') = None" by code_simp
  show ?thesis using general t1 t2 e1 e2 e3 e4 e5 e6 e7 by blast
qed

theorem normalizeChatProvider_spec_witness:
  "set [[CHR 0x20], [CHR 0x09]] \<subseteq> set whiteSpaces
   \<and> set [[CHR 0xE2, CHR 0x80, CHR 0x83]] \<subseteq> set whiteSpaces
   \<and> caseVariant ''DisCord'' (providerKey Discord)
   \<and> normalizeChatProvider
        (Some (concat [[CHR 0x20], [CHR 0x09]] @ ''DisCord''
               @ concat [[CHR 0xE2, CHR 0x80, CHR 0x83]])) = Some Discord"
proof -
  have w1: "set [[CHR 0x20], [CHR 0x09]] \<subseteq> set whiteSpaces"
    by (simp add: whiteSpaces_def)
  have w2: "set [[CHR 0xE2, CHR 0x80, CHR 0x83]] \<subseteq> set whiteSpaces"
    by (simp add: whiteSpaces_def)
  have c: "caseVariant ''DisCord'' (providerKey Discord)"
    by code_simp
  have "\<exists>pre core post.
          (case Some (concat [[CHR 0x20], [CHR 0x09]] @ ''DisCord''
                      @ concat [[CHR 0xE2, CHR 0x80, CHR 0x83]])
           of None \<Rightarrow> [] | Some s \<Rightarrow> s) = concat pre @ core @ concat post
        \<and> set pre \<subseteq> set whiteSpaces \<and> set post \<subseteq> set whiteSpaces
        \<and> (caseVariant core (providerKey Discord)
            \<or> (caseVariant core ''imsg'' \<and> Discord = Imessage))"
    using w1 w2 c by (intro exI[of _ "[[CHR 0x20], [CHR 0x09]]"] exI[of _ "''DisCord''"]
                        exI[of _ "[[CHR 0xE2, CHR 0x80, CHR 0x83]]"]) simp
  then show ?thesis
    using w1 w2 c
      normalizeChatProvider_spec
        [of "Some (concat [[CHR 0x20], [CHR 0x09]] @ ''DisCord''
                   @ concat [[CHR 0xE2, CHR 0x80, CHR 0x83]])" Discord]
    by blast
qed

section \<open>Adding an account: the patch as a function of the section\<close>

lemma spread_safeBase:
  "spread (if typeofObject b \<and> truthy b then b else JObj Map.empty) = spread b"
  by (cases b) simp_all

lemma spread_nullish: "spread (nullish v (JObj Map.empty)) = spread v"
  by (cases v) (simp_all add: nullish_def)

lemma get_nullish: "get (nullish v (JObj Map.empty)) k = get v k"
  by (cases v) (simp_all add: nullish_def ownProp_def)

lemma ownProp_upd: "ownProp (m(k \<mapsto> v)) k = v"
  by (simp add: ownProp_def)

lemma optField_apply: "optField k v k' = (if k' = k \<and> given v then Some (JStr (the v)) else None)"
  by (cases v) auto

lemma optNumber_apply:
  "optNumber N k v k' = (if k' = k \<and> given v then Some (N (the v)) else None)"
  by (cases v) auto

lemma applyAccountName_None: "applyAccountName cfg key a None = cfg"
  by (simp add: applyAccountName_def)

lemma applyAccountName_Some:
  assumes "t \<noteq> []" "trim t = t" "normalizeAccountId (Some a) = a"
  shows "applyAccountName cfg key a (Some t) =
    cfg(providerKey key \<mapsto> JObj (
      if key = Whatsapp \<or> a \<noteq> DEFAULT_ACCOUNT_ID
      then (spread (ownProp cfg (providerKey key)))
             (''accounts'' \<mapsto> JObj ((spread (get (ownProp cfg (providerKey key)) ''accounts''))
                (a \<mapsto> JObj ((spread (get (get (ownProp cfg (providerKey key)) ''accounts'') a))
                               (''name'' \<mapsto> JStr t)))))
      else (spread (ownProp cfg (providerKey key)))(''name'' \<mapsto> JStr t)))"
  using assms
  by (simp add: applyAccountName_def Let_def spread_safeBase spread_nullish get_nullish)

lemma authDir_enabled:
  "(m ++ optField ''authDir'' x)(''enabled'' \<mapsto> v) = m(''enabled'' \<mapsto> v) ++ optField ''authDir'' x"
  by (cases x) (auto simp: fun_eq_iff map_add_def)

lemma name_absorbed:
  "t \<noteq> [] \<Longrightarrow>
   (m(''name'' \<mapsto> JStr t, ''enabled'' \<mapsto> v)) ++ f ++ optField ''name'' (Some t)
     = m(''enabled'' \<mapsto> v) ++ f ++ optField ''name'' (Some t)"
  by (auto simp: fun_eq_iff map_add_def split: option.splits)

lemma apply_section:
  "applyProviderAccountConfig Number cfg key a0 params =
    (let a = normalizeAccountId (Some a0);
         nm = trimmedName (name params);
         sec = ownProp cfg (providerKey key);
         entry = spread (get (get sec ''accounts'') a)
     in cfg(providerKey key \<mapsto> JObj (
          if key = Whatsapp then
            (spread sec)(''accounts'' \<mapsto> JObj ((spread (get sec ''accounts''))
               (a \<mapsto> JObj (addedEntry (optField ''authDir'' (authDir params)) nm entry))))
          else if a = DEFAULT_ACCOUNT_ID then
            addedEntry (providerFields Number key True params) nm (spread sec)
          else
            (spread sec)(''enabled'' \<mapsto> JBool True,
               ''accounts'' \<mapsto> JObj ((spread (get sec ''accounts''))
               (a \<mapsto> JObj (addedEntry (providerFields Number key False params) nm entry)))))))"
proof (cases "trimmedName (name params)")
  case None
  show ?thesis
  proof (cases "key = Whatsapp")
    case True
    then show ?thesis
      unfolding applyProviderAccountConfig_def Let_def None applyAccountName_None addedEntry_def
      by (simp add: authDir_enabled)
  next
    case False
    then show ?thesis
      unfolding applyProviderAccountConfig_def Let_def None applyAccountName_None addedEntry_def
      by simp
  qed
next
  case (Some t)
  with trimmedName_cases[of "name params"] have t: "t \<noteq> []" "trim t = t" by auto
  note nm = applyAccountName_Some[OF t normalizeAccountId_idem]
  show ?thesis
  proof (cases "key = Whatsapp")
    case True
    then show ?thesis
      unfolding applyProviderAccountConfig_def Let_def Some nm addedEntry_def
      by (simp add: authDir_enabled ownProp_upd name_absorbed[OF t(1)] del: optField.simps)
  next
    case False
    then show ?thesis
      unfolding applyProviderAccountConfig_def Let_def Some nm addedEntry_def
      by (simp add: ownProp_upd name_absorbed[OF t(1)] del: optField.simps)
  qed
qed

lemma addedEntry_idem: "addedEntry fs nm (addedEntry fs nm e) = addedEntry fs nm e"
  by (auto simp: addedEntry_def fun_eq_iff map_add_def split: option.splits)

lemma upd2_upd2: "m(a \<mapsto> x, b \<mapsto> y, a \<mapsto> x', b \<mapsto> y') = m(a \<mapsto> x', b \<mapsto> y')"
  by (auto simp: fun_eq_iff)

lemma addedEntry_frame:
  "k \<noteq> ''enabled'' \<Longrightarrow> fs k = None \<Longrightarrow> k \<noteq> ''name'' \<or> nm = None
     \<Longrightarrow> addedEntry fs nm e k = e k"
  by (auto simp: addedEntry_def map_add_def optField_apply split: option.splits)

lemma addedEntry_enabled:
  "fs ''enabled'' = None \<Longrightarrow> addedEntry fs nm e ''enabled'' = Some (JBool True)"
  by (auto simp: addedEntry_def map_add_def optField_apply split: option.splits)

lemma providerFields_absent:
  "k \<noteq> ''name'' \<Longrightarrow> \<not> given (requestField key k params)
     \<Longrightarrow> providerFields Number key d params k = None"
  by (cases key)
     (auto simp: requestField_def map_add_def optField_apply optNumber_apply
           split: if_splits option.splits)

lemma providerFields_enabled: "providerFields Number key d params ''enabled'' = None"
  by (cases key) (auto simp: map_add_def optField_apply optNumber_apply split: option.splits)

lemma providerFields_name: "providerFields Number key d params ''name'' = None"
  by (cases key) (auto simp: map_add_def optField_apply optNumber_apply split: option.splits)

lemma accountRecord_apply:
  "accountRecord (applyProviderAccountConfig Number cfg key a0 params) key
       (normalizeAccountId (Some a0))
    = addedEntry (if key = Whatsapp then optField ''authDir'' (authDir params)
                  else providerFields Number key
                         (normalizeAccountId (Some a0) = DEFAULT_ACCOUNT_ID) params)
        (trimmedName (name params))
        (accountRecord cfg key (normalizeAccountId (Some a0)))"
  unfolding apply_section Let_def accountRecord_def
  by (simp add: ownProp_upd)

text \<open>
  C4. For every document, provider, account id and optional fields, and whatever the
  number conversion, applying the add patch to its own result with the same parameters
  gives that result again.
\<close>

theorem add_idempotent:
  "applyProviderAccountConfig Number (applyProviderAccountConfig Number cfg key accountId params)
       key accountId params
     = applyProviderAccountConfig Number cfg key accountId params"
  unfolding apply_section Let_def
  by (simp add: ownProp_upd addedEntry_idem upd2_upd2)

text \<open>
  C5. The add patch merges: a property \<open>k\<close> of the account's record, other than
  \<open>enabled\<close>, whose field is absent from the request (not supplied, or empty) has after
  the patch the value it had before. A request with only a display name therefore leaves
  a configured token, and every other property but \<open>name\<close> and \<open>enabled\<close>, as it was.
\<close>

theorem add_merges:
  assumes "k \<noteq> ''enabled''" and "\<not> given (requestField key k params)"
  shows "accountRecord (applyProviderAccountConfig Number cfg key accountId params) key
             (normalizeAccountId (Some accountId)) k
         = accountRecord cfg key (normalizeAccountId (Some accountId)) k"
proof -
  have nm: "k \<noteq> ''name'' \<or> trimmedName (name params) = None"
    using assms(2) by (auto simp: requestField_def trimmedName_absent)
  have fs: "(if key = Whatsapp then optField ''authDir'' (authDir params)
             else providerFields Number key
                    (normalizeAccountId (Some accountId) = DEFAULT_ACCOUNT_ID) params) k = None"
  proof (cases "k = ''name''")
    case True
    then show ?thesis by (simp add: providerFields_name optField_apply)
  next
    case False
    then show ?thesis using assms(2) providerFields_absent[OF False assms(2)]
      by (auto simp: optField_apply requestField_def)
  qed
  show ?thesis
    unfolding accountRecord_apply
    using assms(1) fs nm by (rule addedEntry_frame)
qed

theorem add_merges_witness:
  "''botToken'' \<noteq> ''enabled''
   \<and> \<not> given (requestField Telegram ''botToken'' (noFields\<lparr>name := Some ''Bot''\<rparr>))
   \<and> accountRecord (applyProviderAccountConfig noNumber telegramFlat Telegram []
                       (noFields\<lparr>name := Some ''Bot''\<rparr>)) Telegram DEFAULT_ACCOUNT_ID ''botToken''
       = Some (JStr ''abc'')"
  using add_merges [of "''botToken''" Telegram "noFields\<lparr>name := Some ''Bot''\<rparr>"
                       noNumber telegramFlat "[]"]
  by (simp add: requestField_def noFields_def normalizeAccountId_empty accountRecord_def
                telegramFlat_def ownProp_def)

text \<open>
  C10. For a provider other than whatsapp and an account id that does not normalize to
  the default sentinel, the add patch leaves \<open>enabled = true\<close> on the section and on
  \<open>accounts[accountId]\<close>, whatever the section held before; a section disabled at
  section level is enabled again.
\<close>

theorem named_add_enables_section:
  assumes "key \<noteq> Whatsapp" and "normalizeAccountId (Some accountId) \<noteq> DEFAULT_ACCOUNT_ID"
  shows "get (ownProp (applyProviderAccountConfig Number cfg key accountId params)
                (providerKey key)) ''enabled'' = JBool True
       \<and> get (get (get (ownProp (applyProviderAccountConfig Number cfg key accountId params)
                          (providerKey key)) ''accounts'')
                (normalizeAccountId (Some accountId))) ''enabled'' = JBool True"
  using assms unfolding apply_section Let_def
  by (simp add: ownProp_upd ownProp_def addedEntry_enabled providerFields_enabled)

theorem named_add_enables_section_witness:
  "Discord \<noteq> Whatsapp \<and> normalizeAccountId (Some ''work'') \<noteq> DEFAULT_ACCOUNT_ID
   \<and> get (ownProp discordDisabled ''discord'') ''enabled'' = JBool False
   \<and> get (ownProp (applyProviderAccountConfig noNumber discordDisabled Discord ''work''
                     (noFields\<lparr>token := Some ''xyz''\<rparr>)) ''discord'') ''enabled'' = JBool True
   \<and> get (get (get (ownProp (applyProviderAccountConfig noNumber discordDisabled Discord ''work''
                     (noFields\<lparr>token := Some ''xyz''\<rparr>)) ''discord'') ''accounts'') ''work'')
        ''enabled'' = JBool True"
  using named_add_enables_section [of Discord "''work''" noNumber discordDisabled
                                      "noFields\<lparr>token := Some ''xyz''\<rparr>"]
  by (simp add: normalizeAccountId_work work_not_DEFAULT discordDisabled_def ownProp_def)

section \<open>Disabling an account\<close>

text \<open>
  C6. \<open>setAccountEnabled\<close> has two cases. For a provider other than whatsapp, the
  default account and a section whose \<open>accounts\<close> is missing (falsy), the section is
  the old one with \<open>enabled\<close> written; \<open>accounts\<close> stays as it was, so no entry is
  created. In every other case (whatsapp always; a named account; the default account of
  a section that has an accounts map, as it does once a named account exists) the entry
  \<open>accounts[accountKey]\<close> is the old one with \<open>enabled\<close> written, the other entries
  and the other fields of the section are as before. The other keys of the document are
  untouched in both cases.
\<close>

theorem setAccountEnabled_semantics:
  "(key \<noteq> Whatsapp \<and> accountKey = DEFAULT_ACCOUNT_ID
      \<and> \<not> truthy (get (ownProp next (providerKey key)) ''accounts'')
    \<longrightarrow> spread (ownProp (setAccountEnabled accountKey key enabled next) (providerKey key))
          = (spread (ownProp next (providerKey key)))(''enabled'' \<mapsto> JBool enabled))
   \<and> (key = Whatsapp \<or> accountKey \<noteq> DEFAULT_ACCOUNT_ID
      \<or> truthy (get (ownProp next (providerKey key)) ''accounts'')
    \<longrightarrow> spread (get (get (ownProp (setAccountEnabled accountKey key enabled next)
                              (providerKey key)) ''accounts'') accountKey)
          = (spread (get (get (ownProp next (providerKey key)) ''accounts'') accountKey))
              (''enabled'' \<mapsto> JBool enabled)
        \<and> (\<forall>b. b \<noteq> accountKey \<longrightarrow>
              spread (get (ownProp (setAccountEnabled accountKey key enabled next)
                             (providerKey key)) ''accounts'') b
              = spread (get (ownProp next (providerKey key)) ''accounts'') b)
        \<and> (\<forall>k. k \<noteq> ''accounts'' \<longrightarrow>
              spread (ownProp (setAccountEnabled accountKey key enabled next) (providerKey key)) k
              = spread (ownProp next (providerKey key)) k))
   \<and> (\<forall>p. p \<noteq> providerKey key \<longrightarrow> setAccountEnabled accountKey key enabled next p = next p)"
  unfolding setAccountEnabled_def Let_def
  by (cases "key = Whatsapp")
     (auto simp: ownProp_upd spread_nullish get_nullish ownProp_def)

theorem setAccountEnabled_semantics_witness:
  "\<not> truthy (get (ownProp telegramFlat ''telegram'') ''accounts'')
   \<and> spread (ownProp (setAccountEnabled DEFAULT_ACCOUNT_ID Telegram False telegramFlat) ''telegram'')
       = [''botToken'' \<mapsto> JStr ''abc'', ''enabled'' \<mapsto> JBool False]
   \<and> truthy (get (ownProp telegramTwo ''telegram'') ''accounts'')
   \<and> spread (get (get (ownProp (setAccountEnabled DEFAULT_ACCOUNT_ID Telegram False telegramTwo)
                          ''telegram'') ''accounts'') DEFAULT_ACCOUNT_ID)
       = [''enabled'' \<mapsto> JBool False]
   \<and> spread (get (get (ownProp (setAccountEnabled ''work'' Whatsapp False whatsappWork)
                          ''whatsapp'') ''accounts'') ''work'')
       = [''authDir'' \<mapsto> JStr ''/w'', ''enabled'' \<mapsto> JBool False]"
  using setAccountEnabled_semantics [of Telegram DEFAULT_ACCOUNT_ID telegramFlat False]
        setAccountEnabled_semantics [of Telegram DEFAULT_ACCOUNT_ID telegramTwo False]
        setAccountEnabled_semantics [of Whatsapp "''work''" whatsappWork False]
  by (simp add: telegramFlat_def telegramTwo_def whatsappWork_def ownProp_def
                DEFAULT_ACCOUNT_ID_def)

section \<open>Deleting an account\<close>

lemma ownProp_del: "ownProp (m(k := None)) k = JUndef"
  by (simp add: ownProp_def)

lemma spread_accountsOrUndefined: "spread (accountsOrUndefined m) = m"
  by (auto simp: accountsOrUndefined_def)

lemma undefinedFields_apply:
  "undefinedFields ks k = (if k \<in> set ks then Some JUndef else None)"
  unfolding undefinedFields_def by (induction ks) auto

lemma accounts_not_cleared: "''accounts'' \<notin> set (clearedFields key)"
  by (cases key) simp_all

lemma accountsOrUndefined_shape:
  "accountsShape (JObj (m(''accounts'' \<mapsto> accountsOrUndefined a)))"
  by (simp add: accountsShape_def accountsOrUndefined_def ownProp_def)

lemma accountsOrUndefined_shape_cleared:
  "accountsShape (JObj (m(''accounts'' \<mapsto> accountsOrUndefined a)
                        ++ undefinedFields (clearedFields key)))"
  by (simp add: accountsShape_def accountsOrUndefined_def ownProp_def map_add_def
                undefinedFields_apply accounts_not_cleared)

text \<open>
  C1, as the code has it. For a provider other than whatsapp, deleting the default
  account of a section whose \<open>accounts\<close> is missing or has no key removes the key of the
  provider from the document, whatever the section holds, and changes nothing else.
\<close>

theorem delete_default_flat:
  assumes "key \<noteq> Whatsapp"
    and "\<not> (truthy (get (ownProp next (providerKey key)) ''accounts'')
            \<and> dom (spread (get (ownProp next (providerKey key)) ''accounts'')) \<noteq> {})"
  shows "deleteAccount DEFAULT_ACCOUNT_ID key next = next(providerKey key := None)"
  using assms unfolding deleteAccount_def Let_def by auto

theorem delete_default_flat_witness:
  "Telegram \<noteq> Whatsapp
   \<and> \<not> truthy (get (ownProp telegramExtra ''telegram'') ''accounts'')
   \<and> deleteAccount DEFAULT_ACCOUNT_ID Telegram telegramExtra = telegramExtra(''telegram'' := None)"
proof -
  have h: "\<not> (truthy (get (ownProp telegramExtra (providerKey Telegram)) ''accounts'')
            \<and> dom (spread (get (ownProp telegramExtra (providerKey Telegram)) ''accounts'')) \<noteq> {})"
    by (simp add: telegramExtra_def ownProp_def)
  show ?thesis
    using delete_default_flat [of Telegram telegramExtra, OF _ h]
    by (simp add: telegramExtra_def ownProp_def)
qed

text \<open>
  C1, as the specification has it, fails: the section of \<open>telegramExtra\<close> has no
  accounts map and holds \<open>allowFrom\<close> beside the token; with the singleton fields of
  telegram cleared it would still hold \<open>allowFrom\<close>, yet deleting the default account
  removes the section.
\<close>

theorem delete_default_flat_counterexample:
  "get (ownProp telegramExtra ''telegram'') ''accounts'' = JUndef
   \<and> (spread (ownProp telegramExtra ''telegram'') ++ undefinedFields (clearedFields Telegram))
        ''allowFrom'' = Some (JArr [JStr ''12345''])
   \<and> deleteAccount DEFAULT_ACCOUNT_ID Telegram telegramExtra ''telegram'' = None"
  by (simp add: deleteAccount_def telegramExtra_def ownProp_def undefinedFields_def map_add_def)

text \<open>
  C2, as the code has it. For a provider other than whatsapp, deleting the default
  account of a section whose accounts map has a key removes the default entry from the
  map and leaves every other entry; the \<open>accounts\<close> property of the section then holds
  the remaining map, or \<open>undefined\<close> when no entry remains, never an empty map. It sets
  the singleton fields of the provider (\<open>clearedFields\<close>) to \<open>undefined\<close> on the
  section; every other field of the section and every other key of the document is as
  before.
\<close>

theorem delete_default_with_accounts:
  assumes "key \<noteq> Whatsapp"
    and "truthy (get (ownProp next (providerKey key)) ''accounts'')"
    and "dom (spread (get (ownProp next (providerKey key)) ''accounts'')) \<noteq> {}"
  shows "spread (get (ownProp (deleteAccount DEFAULT_ACCOUNT_ID key next) (providerKey key))
                  ''accounts'')
           = (spread (get (ownProp next (providerKey key)) ''accounts''))
               (DEFAULT_ACCOUNT_ID := None)
       \<and> spread (ownProp (deleteAccount DEFAULT_ACCOUNT_ID key next) (providerKey key))
            ''accounts''
           = Some (if dom ((spread (get (ownProp next (providerKey key)) ''accounts''))
                             (DEFAULT_ACCOUNT_ID := None)) = {}
                   then JUndef
                   else JObj ((spread (get (ownProp next (providerKey key)) ''accounts''))
                                (DEFAULT_ACCOUNT_ID := None)))
       \<and> list_all (\<lambda>k. spread (ownProp (deleteAccount DEFAULT_ACCOUNT_ID key next)
                                  (providerKey key)) k = Some JUndef)
                  (clearedFields key)
       \<and> (\<forall>k. k \<noteq> ''accounts'' \<and> k \<notin> set (clearedFields key) \<longrightarrow>
             spread (ownProp (deleteAccount DEFAULT_ACCOUNT_ID key next) (providerKey key)) k
             = spread (ownProp next (providerKey key)) k)
       \<and> (\<forall>p. p \<noteq> providerKey key \<longrightarrow>
             deleteAccount DEFAULT_ACCOUNT_ID key next p = next p)"
proof -
  let ?sec' = "ownProp (deleteAccount DEFAULT_ACCOUNT_ID key next) (providerKey key)"
  let ?rest = "(spread (get (ownProp next (providerKey key)) ''accounts''))
                 (DEFAULT_ACCOUNT_ID := None)"
  have sec: "?sec' = JObj ((spread (ownProp next (providerKey key)))
                 (''accounts'' \<mapsto> accountsOrUndefined ?rest)
               ++ undefinedFields (clearedFields key))"
    using assms unfolding deleteAccount_def Let_def by (simp add: ownProp_upd)
  have own: "spread ?sec' ''accounts'' = Some (accountsOrUndefined ?rest)"
    unfolding sec by (simp add: map_add_def undefinedFields_apply accounts_not_cleared)
  have c1: "spread (get ?sec' ''accounts'') = ?rest"
    unfolding sec
    by (simp add: ownProp_def map_add_def undefinedFields_apply accounts_not_cleared
                  spread_accountsOrUndefined)
  have c2: "spread ?sec' ''accounts'' = Some (if dom ?rest = {} then JUndef else JObj ?rest)"
    unfolding own by (simp add: accountsOrUndefined_def)
  have c3: "list_all (\<lambda>k. spread ?sec' k = Some JUndef) (clearedFields key)"
    unfolding sec by (simp add: list_all_iff map_add_def undefinedFields_apply)
  have c4: "\<forall>k. k \<noteq> ''accounts'' \<and> k \<notin> set (clearedFields key) \<longrightarrow>
             spread ?sec' k = spread (ownProp next (providerKey key)) k"
    unfolding sec by (simp add: map_add_def undefinedFields_apply)
  have c5: "\<forall>p. p \<noteq> providerKey key \<longrightarrow>
             deleteAccount DEFAULT_ACCOUNT_ID key next p = next p"
    using assms unfolding deleteAccount_def Let_def by simp
  show ?thesis using c1 c2 c3 c4 c5 by blast
qed

theorem delete_default_with_accounts_witness:
  "Telegram \<noteq> Whatsapp
   \<and> truthy (get (ownProp telegramTwo ''telegram'') ''accounts'')
   \<and> dom (spread (get (ownProp telegramTwo ''telegram'') ''accounts'')) \<noteq> {}
   \<and> spread (get (ownProp (deleteAccount DEFAULT_ACCOUNT_ID Telegram telegramTwo) ''telegram'')
               ''accounts'') ''work''
       = Some (JObj [''botToken'' \<mapsto> JStr ''xyz''])
   \<and> spread (get (ownProp (deleteAccount DEFAULT_ACCOUNT_ID Telegram telegramTwo) ''telegram'')
               ''accounts'') DEFAULT_ACCOUNT_ID = None
   \<and> spread (ownProp (deleteAccount DEFAULT_ACCOUNT_ID Telegram telegramTwo) ''telegram'')
        ''allowFrom'' = Some (JArr [JStr ''12345''])
   \<and> truthy (get (ownProp telegramDefaultOnly ''telegram'') ''accounts'')
   \<and> dom (spread (get (ownProp telegramDefaultOnly ''telegram'') ''accounts'')) \<noteq> {}
   \<and> spread (ownProp (deleteAccount DEFAULT_ACCOUNT_ID Telegram telegramDefaultOnly)
               ''telegram'') ''accounts'' = Some JUndef"
proof -
  have h1: "truthy (get (ownProp telegramTwo (providerKey Telegram)) ''accounts'')"
    by (simp add: telegramTwo_def ownProp_def)
  have h2: "dom (spread (get (ownProp telegramTwo (providerKey Telegram)) ''accounts'')) \<noteq> {}"
    by (simp add: telegramTwo_def ownProp_def)
  have g1: "truthy (get (ownProp telegramDefaultOnly (providerKey Telegram)) ''accounts'')"
    by (simp add: telegramDefaultOnly_def ownProp_def)
  have g2: "dom (spread (get (ownProp telegramDefaultOnly (providerKey Telegram))
                  ''accounts'')) \<noteq> {}"
    by (simp add: telegramDefaultOnly_def ownProp_def)
  show ?thesis
    using delete_default_with_accounts [of Telegram telegramTwo, OF _ h1 h2]
          delete_default_with_accounts [of Telegram telegramDefaultOnly, OF _ g1 g2]
    by (simp add: telegramTwo_def telegramDefaultOnly_def ownProp_def DEFAULT_ACCOUNT_ID_def)
qed

text \<open>
  C2, read as "the default entry of the map is all that goes", fails: the section of
  \<open>telegramTwo\<close> has the accounts \<open>default\<close> and \<open>work\<close> and the section-level
  \<open>botToken\<close> \<open>abc\<close>; after deleting the default account the section-level
  \<open>botToken\<close> is \<open>undefined\<close>.
\<close>

theorem delete_default_with_accounts_counterexample:
  "truthy (get (ownProp telegramTwo ''telegram'') ''accounts'')
   \<and> dom (spread (get (ownProp telegramTwo ''telegram'') ''accounts'')) \<noteq> {}
   \<and> get (ownProp telegramTwo ''telegram'') ''botToken'' = JStr ''abc''
   \<and> get (ownProp (deleteAccount DEFAULT_ACCOUNT_ID Telegram telegramTwo) ''telegram'')
        ''botToken'' = JUndef"
  by (simp add: deleteAccount_def telegramTwo_def ownProp_def undefinedFields_def map_add_def
                DEFAULT_ACCOUNT_ID_def)

text \<open>
  C3. After \<open>deleteAccount\<close>, for every provider, account key and document, reading
  \<open>accounts\<close> off the section of the provider gives \<open>undefined\<close> or a map with at least
  one key, never an empty map. (Where the last entry went, the code writes
  \<open>accounts: undefined\<close>.)
\<close>

theorem delete_no_empty_accounts:
  "accountsShape (ownProp (deleteAccount accountKey key next) (providerKey key))"
  unfolding deleteAccount_def Let_def
  by (cases "key = Whatsapp")
     (simp_all add: ownProp_upd ownProp_del accountsOrUndefined_shape
                    accountsOrUndefined_shape_cleared,
      simp_all add: accountsShape_def)

section \<open>The add command: validation\<close>

lemma normalize_slack: "normalizeChatProvider (Some ''slack'') = Some Slack"
  by code_simp

lemma normalize_telegram: "normalizeChatProvider (Some ''telegram'') = Some Telegram"
  by code_simp

lemma normalizeAccountId_DEFAULT:
  "normalizeAccountId (Some DEFAULT_ACCOUNT_ID) = DEFAULT_ACCOUNT_ID"
  by (simp add: normalizeAccountId_def trim_DEFAULT DEFAULT_nonempty)

text \<open>
  C7. On each validation failure the flag-driven add command gives the diagnostic of that
  failure to \<open>runtime.error\<close>, calls \<open>runtime.exit(1)\<close> and does nothing else: no
  document is written and nothing is logged.
\<close>

theorem add_validation_failure:
  assumes "validationFailure opts"
  shows "providersAddCommand Number cfg opts eff
           = eff\<lparr>errorLines := errorLines eff @ [missingRequirement opts],
                 exitCodes := exitCodes eff @ [1]\<rparr>
       \<and> missingRequirement opts \<noteq> []
       \<and> configWrites (providersAddCommand Number cfg opts eff) = configWrites eff"
proof (cases "normalizeChatProvider (provider opts)")
  case None
  then show ?thesis
    by (simp add: providersAddCommand_def missingRequirement_def fail_def)
next
  case (Some key)
  with assms show ?thesis
    by (cases key)
       (auto simp: providersAddCommand_def missingRequirement_def fail_def
                   validationFailure_def Let_def)
qed

theorem add_validation_failure_witness:
  "validationFailure
     (noOptions\<lparr>provider := Some ''slack'', account := Some ''work'', useEnv := Some True\<rparr>)
   \<and> providersAddCommand noNumber Map.empty
        (noOptions\<lparr>provider := Some ''slack'', account := Some ''work'', useEnv := Some True\<rparr>)
        noEffects
      = \<lparr>errorLines = [''Slack env tokens can only be used for the default account.''],
         logLines = [], exitCodes = [1], configWrites = []\<rparr>"
proof -
  have f: "validationFailure
     (noOptions\<lparr>provider := Some ''slack'', account := Some ''work'', useEnv := Some True\<rparr>)"
    by (simp add: validationFailure_def noOptions_def normalize_slack normalizeAccountId_work
                  work_not_DEFAULT)
  show ?thesis
    using f add_validation_failure [OF f, of noNumber Map.empty noEffects]
    by (simp add: missingRequirement_def noOptions_def normalize_slack noEffects_def)
qed

section \<open>The telegram scenario\<close>

lemma add_telegram_default:
  "providersAddCommand Number cfg
       (noOptions\<lparr>provider := Some ''telegram'', token := Some ''abc''\<rparr>) eff
    = eff\<lparr>configWrites := configWrites eff
             @ [cfg(''telegram'' \<mapsto> JObj ((spread (ownProp cfg ''telegram''))
                   (''enabled'' \<mapsto> JBool True, ''botToken'' \<mapsto> JStr ''abc'')))],
           logLines := logLines eff
             @ [''Added telegram account '' @ [CHR 0x22] @ DEFAULT_ACCOUNT_ID
                @ [CHR 0x22] @ ''.'']\<rparr>"
  unfolding providersAddCommand_def apply_section
  by (simp add: noOptions_def normalize_telegram normalizeAccountId_absent
        normalizeAccountId_DEFAULT DEFAULT_nonempty trimmedName_def addedEntry_def Let_def)

text \<open>
  C8. From a document whose telegram section has no accounts map: the add command with
  provider \<open>telegram\<close> and token \<open>abc\<close> writes a document whose telegram section has
  \<open>botToken = "abc"\<close> and \<open>enabled = true\<close>; on that document the remove command
  without the delete flag, once confirmed, writes one with \<open>enabled = false\<close> and the
  same \<open>botToken\<close>; on that one the remove command with the delete flag writes a
  document without the telegram section.
\<close>

theorem telegram_round_trip:
  assumes "get (ownProp cfg ''telegram'') ''accounts'' = JUndef"
  shows "\<exists>cfg1 cfg2 cfg3.
      configWrites (providersAddCommand Number cfg
          (noOptions\<lparr>provider := Some ''telegram'', token := Some ''abc''\<rparr>) eff)
        = configWrites eff @ [cfg1]
    \<and> get (ownProp cfg1 ''telegram'') ''botToken'' = JStr ''abc''
    \<and> get (ownProp cfg1 ''telegram'') ''enabled'' = JBool True
    \<and> configWrites (providersRemoveCommand cfg1 (Some ''telegram'') None None True eff)
        = configWrites eff @ [cfg2]
    \<and> get (ownProp cfg2 ''telegram'') ''enabled'' = JBool False
    \<and> get (ownProp cfg2 ''telegram'') ''botToken'' = JStr ''abc''
    \<and> configWrites (providersRemoveCommand cfg2 (Some ''telegram'') None (Some True) ok eff)
        = configWrites eff @ [cfg3]
    \<and> cfg3 ''telegram'' = None"
proof -
  let ?sec = "spread (ownProp cfg ''telegram'')"
  let ?cfg1 = "cfg(''telegram'' \<mapsto> JObj (?sec(''enabled'' \<mapsto> JBool True,
                     ''botToken'' \<mapsto> JStr ''abc'')))"
  let ?cfg2 = "cfg(''telegram'' \<mapsto> JObj (?sec(''enabled'' \<mapsto> JBool True,
                     ''botToken'' \<mapsto> JStr ''abc'', ''enabled'' \<mapsto> JBool False)))"
  have acc: "?sec ''accounts'' = None \<or> ?sec ''accounts'' = Some JUndef"
    using assms
    by (cases "ownProp cfg ''telegram''") (auto simp: ownProp_def split: option.splits)
  have a1: "get (ownProp ?cfg1 ''telegram'') ''accounts'' = JUndef"
    using acc by (auto simp: ownProp_def)
  have a2: "get (ownProp ?cfg2 ''telegram'') ''accounts'' = JUndef"
    using acc by (auto simp: ownProp_def)
  have s1: "configWrites (providersAddCommand Number cfg
          (noOptions\<lparr>provider := Some ''telegram'', token := Some ''abc''\<rparr>) eff)
        = configWrites eff @ [?cfg1]"
    by (simp add: add_telegram_default)
  have s2: "configWrites (providersRemoveCommand ?cfg1 (Some ''telegram'') None None True eff)
        = configWrites eff @ [?cfg2]"
    using a1 unfolding providersRemoveCommand_def setAccountEnabled_def
    by (simp add: normalize_telegram normalizeAccountId_absent DEFAULT_nonempty Let_def
                  ownProp_upd)
  have s3: "configWrites (providersRemoveCommand ?cfg2 (Some ''telegram'') None (Some True) ok eff)
        = configWrites eff @ [?cfg2(''telegram'' := None)]"
    using a2 unfolding providersRemoveCommand_def deleteAccount_def
    by (simp add: normalize_telegram normalizeAccountId_absent DEFAULT_nonempty Let_def)
  show ?thesis
    apply (rule exI[of _ ?cfg1], rule exI[of _ ?cfg2], rule exI[of _ "?cfg2(''telegram'' := None)"])
    using s1 s2 s3 by (simp add: ownProp_def)
qed

theorem telegram_round_trip_witness:
  "get (ownProp Map.empty ''telegram'') ''accounts'' = JUndef
   \<and> (\<exists>cfg1 cfg2 cfg3.
      configWrites (providersAddCommand noNumber Map.empty
          (noOptions\<lparr>provider := Some ''telegram'', token := Some ''abc''\<rparr>) noEffects) = [cfg1]
    \<and> get (ownProp cfg1 ''telegram'') ''botToken'' = JStr ''abc''
    \<and> get (ownProp cfg1 ''telegram'') ''enabled'' = JBool True
    \<and> configWrites (providersRemoveCommand cfg1 (Some ''telegram'') None None True noEffects)
        = [cfg2]
    \<and> get (ownProp cfg2 ''telegram'') ''enabled'' = JBool False
    \<and> get (ownProp cfg2 ''telegram'') ''botToken'' = JStr ''abc''
    \<and> configWrites (providersRemoveCommand cfg2 (Some ''telegram'') None (Some True) False
                       noEffects) = [cfg3]
    \<and> cfg3 ''telegram'' = None)"
proof -
  have e: "configWrites noEffects = []"
    by (simp add: noEffects_def)
  have h: "get (ownProp Map.empty ''telegram'') ''accounts'' = JUndef"
    by (simp add: ownProp_def)
  show ?thesis
    using h telegram_round_trip [OF h, of noNumber noEffects False]
    by (simp add: e)
qed

end
